theory Spec2Isabelle
  imports Main "HOL-Library.AList"
begin

section \<open>Python values and the ways a request can fail\<close>

text \<open>
  The application \<^verbatim>\<open>app.py\<close> is a FastAPI program over SQLModel classes and an
  SQLite file.  Attribute values, request bodies and responses are Python values; a
  dictionary (a parsed JSON object, the attributes of an instance) is an association
  list.  A time or a date in a request body is written with \<open>VTime\<close> or \<open>VDate\<close>
  (reading the ISO text is pydantic's), a URL arrives as the string \<open>VStr\<close> and is an
  \<open>HttpUrl\<close> object \<open>VUrl\<close> once validated.
\<close>

datatype val =
    VNone
  | VBool bool
  | VInt int
  | VStr string
  | VUrl string
  | VTime nat nat nat
  | VDate nat nat nat
  | VDict "(string \<times> val) list"
  | VList "val list"

type_synonym pydict = "(string \<times> val) list"

text \<open>
  \<open>HTTPException\<close> is the only error the handlers raise themselves.  FastAPI answers a
  body or query parameter that fails validation with \<open>RequestValidationError\<close> (422)
  before the handler is called; everything else is an exception nobody catches (500).
\<close>

datatype error =
    HTTPException int string
  | RequestValidationError
  | ResponseValidationError
  | ValidationError
  | IntegrityError
  | InvalidRequestError
  | OverflowError

fun status_code :: "error \<Rightarrow> int" where
  "status_code (HTTPException code detail) = code"
| "status_code RequestValidationError = 422"
| "status_code ResponseValidationError = 500"
| "status_code ValidationError = 500"
| "status_code IntegrityError = 500"
| "status_code InvalidRequestError = 500"
| "status_code OverflowError = 500"

definition getattr :: "pydict \<Rightarrow> string \<Rightarrow> val" where
  "getattr obj name = (case map_of obj name of Some v \<Rightarrow> v | None \<Rightarrow> VNone)"

definition setattr :: "pydict \<Rightarrow> string \<Rightarrow> val \<Rightarrow> pydict" where
  "setattr obj name v = AList.update name v obj"

section \<open>\<^verbatim>\<open>HttpUrlType\<close> (lines 8 to 20)\<close>

text \<open>
  \<^verbatim>\<open>str(value)\<close> on the values an \<open>HttpUrl\<close>-typed attribute can hold: an \<open>HttpUrl\<close>
  gives its text, and \<^verbatim>\<open>str(None)\<close> is the four characters \<^verbatim>\<open>None\<close>.
\<close>

fun py_str :: "val \<Rightarrow> string" where
  "py_str VNone = ''None''"
| "py_str (VBool b) = (if b then ''True'' else ''False'')"
| "py_str (VStr s) = s"
| "py_str (VUrl s) = s"
| "py_str v = ''''"

text \<open>
  pydantic parses a URL and gives it back in a normal form: letters of the scheme and
  the host in lower case, a path \<^verbatim>\<open>/\<close> where there is none, and more.  The model
  knows the URLs that are in normal form already, of a plain kind: the scheme
  \<^verbatim>\<open>http\<close> or \<^verbatim>\<open>https\<close>, a host of labels of lower-case letters and digits, the last
  one of letters only, and a path of letters, digits and \<^verbatim>\<open>/ _ -\<close>, in all no more
  than the 2083 characters an \<open>HttpUrl\<close> may have.  These pydantic accepts and leaves
  as they are; any other string the model refuses, also where pydantic would accept
  it and rewrite it.
\<close>

definition lower :: "char \<Rightarrow> bool" where
  "lower c \<longleftrightarrow> c \<in> set ''abcdefghijklmnopqrstuvwxyz''"

definition lower_or_digit :: "char \<Rightarrow> bool" where
  "lower_or_digit c \<longleftrightarrow> c \<in> set ''abcdefghijklmnopqrstuvwxyz0123456789''"

definition path_char :: "char \<Rightarrow> bool" where
  "path_char c \<longleftrightarrow>
     c \<in> set ''abcdefghijklmnopqrstuvwxyzABCDEFGHIJKLMNOPQRSTUVWXYZ0123456789/_-''"

fun host_labels :: "string \<Rightarrow> string list" where
  "host_labels [] = [[]]"
| "host_labels (c # cs) =
     (if c = CHR ''.'' then [] # host_labels cs
      else (case host_labels cs of [] \<Rightarrow> [[c]] | l # ls \<Rightarrow> (c # l) # ls))"

definition is_host :: "string \<Rightarrow> bool" where
  "is_host h \<longleftrightarrow>
     length h \<le> 253 \<and>
     list_all (\<lambda>l. l \<noteq> [] \<and> length l \<le> 63 \<and> list_all lower_or_digit l) (host_labels h) \<and>
     list_all lower (last (host_labels h))"

definition after_scheme :: "string \<Rightarrow> string option" where
  "after_scheme s =
     (if take 7 s = ''http://'' then Some (drop 7 s)
      else if take 8 s = ''https://'' then Some (drop 8 s)
      else None)"

definition is_http_url :: "string \<Rightarrow> bool" where
  "is_http_url s \<longleftrightarrow>
     (case after_scheme s of
        None \<Rightarrow> False
      | Some rest \<Rightarrow>
          length s \<le> 2083 \<and>
          is_host (takeWhile (\<lambda>c. c \<noteq> CHR ''/'') rest) \<and>
          dropWhile (\<lambda>c. c \<noteq> CHR ''/'') rest \<noteq> [] \<and>
          list_all path_char (dropWhile (\<lambda>c. c \<noteq> CHR ''/'') rest))"

text \<open>\<^verbatim>\<open>HttpUrl(url=value)\<close>: raises pydantic's \<open>ValidationError\<close> on anything but a URL.\<close>

fun HttpUrl :: "val \<Rightarrow> error + val" where
  "HttpUrl (VStr s) = (if is_http_url s then Inr (VUrl s) else Inl ValidationError)"
| "HttpUrl (VUrl s) = (if is_http_url s then Inr (VUrl s) else Inl ValidationError)"
| "HttpUrl v = Inl ValidationError"

definition process_bind_param :: "val \<Rightarrow> val" where
  "process_bind_param v = VStr (py_str v)"

definition process_result_value :: "val \<Rightarrow> error + val" where
  "process_result_value v = HttpUrl v"

section \<open>The model classes (lines 23 to 172)\<close>

datatype ftype = T_str | T_int | T_HttpUrl | T_EmailStr | T_Dict | T_time | T_date

text \<open>
  A pydantic field: its name, its type, whether \<open>None\<close> is a value of the annotation
  (\<^verbatim>\<open>Optional[...]\<close>, \<^verbatim>\<open>... | None\<close>), and its default.  A field without a default is
  required, also when its annotation is \<^verbatim>\<open>Optional[...]\<close> (pydantic 2, whose
  \<^verbatim>\<open>ConfigDict\<close>, \<^verbatim>\<open>model_validate\<close> and \<^verbatim>\<open>model_dump\<close> the file uses).
\<close>

record field_info =
  fname :: string
  ftyp :: ftype
  noneable :: bool
  fdefault :: "val option"

definition required :: "string \<Rightarrow> ftype \<Rightarrow> field_info" where
  "required n t = \<lparr>fname = n, ftyp = t, noneable = False, fdefault = None\<rparr>"

definition required_optional :: "string \<Rightarrow> ftype \<Rightarrow> field_info" where
  "required_optional n t = \<lparr>fname = n, ftyp = t, noneable = True, fdefault = None\<rparr>"

definition optional :: "string \<Rightarrow> ftype \<Rightarrow> field_info" where
  "optional n t = \<lparr>fname = n, ftyp = t, noneable = True, fdefault = Some VNone\<rparr>"

definition with_default :: "string \<Rightarrow> ftype \<Rightarrow> bool \<Rightarrow> val \<Rightarrow> field_info" where
  "with_default n t nn d = \<lparr>fname = n, ftyp = t, noneable = nn, fdefault = Some d\<rparr>"

text \<open>
  A model class that is not a table: its fields in declaration order and whether
  \<^verbatim>\<open>model_config = ConfigDict(extra='forbid')\<close> is in force (pydantic's default
  ignores keys that are no field).
\<close>

record schema =
  model_fields :: "field_info list"
  extra_forbid :: bool

definition ScheduleBase :: "field_info list" where
  "ScheduleBase =
     [required ''url'' T_HttpUrl,
      required ''title'' T_str,
      required ''venue'' T_str,
      optional ''venue_url'' T_HttpUrl,
      required ''schedule_datetime'' T_str,
      with_default ''locations'' T_Dict False (VDict []),
      with_default ''registration'' T_Dict True (VDict []),
      optional ''description'' T_str]"

definition ScheduleCreate :: schema where
  "ScheduleCreate = \<lparr>model_fields = ScheduleBase, extra_forbid = True\<rparr>"

definition SchedulePublic :: schema where
  "SchedulePublic = \<lparr>model_fields = ScheduleBase @ [required ''id'' T_int], extra_forbid = True\<rparr>"

definition ScheduleUpdate :: schema where
  "ScheduleUpdate =
     \<lparr>model_fields =
        [optional ''url'' T_HttpUrl,
         optional ''title'' T_str,
         optional ''venue'' T_str,
         optional ''venue_url'' T_HttpUrl,
         optional ''schedule_datetime'' T_str,
         optional ''locations'' T_Dict,
         optional ''registration'' T_Dict,
         optional ''description'' T_str],
      extra_forbid = True\<rparr>"

definition SectionBase :: "field_info list" where
  "SectionBase =
     [required ''title'' T_str,
      required ''sequence'' T_str,
      required_optional ''status'' T_str]"

definition SectionCreate :: schema where
  "SectionCreate = \<lparr>model_fields = SectionBase, extra_forbid = True\<rparr>"

definition SectionPublic :: schema where
  "SectionPublic = \<lparr>model_fields = SectionBase @ [required ''id'' T_int], extra_forbid = True\<rparr>"

definition SectionUpdate :: schema where
  "SectionUpdate =
     \<lparr>model_fields =
        [optional ''id'' T_int,
         optional ''title'' T_str,
         optional ''sequence'' T_str,
         optional ''status'' T_str],
      extra_forbid = False\<rparr>"

definition EventBase :: "field_info list" where
  "EventBase =
     [required ''start_time'' T_time,
      required ''end_time'' T_time,
      required ''event_date'' T_date,
      required ''location'' T_str,
      optional ''section_id'' T_int]"

definition EventCreate :: schema where
  "EventCreate = \<lparr>model_fields = EventBase, extra_forbid = True\<rparr>"

definition EventPublic :: schema where
  "EventPublic = \<lparr>model_fields = EventBase @ [required ''id'' T_int], extra_forbid = True\<rparr>"

definition EventUpdate :: schema where
  "EventUpdate =
     \<lparr>model_fields =
        [optional ''start_time'' T_time,
         optional ''end_time'' T_time,
         optional ''event_date'' T_date,
         optional ''location'' T_str],
      extra_forbid = False\<rparr>"

definition VenueBase :: "field_info list" where
  "VenueBase =
     [required ''name'' T_str,
      optional ''Tel'' T_str,
      optional ''Address'' T_str,
      optional ''Mail'' T_EmailStr,
      optional ''url'' T_HttpUrl,
      optional ''Fax'' T_str,
      optional ''Contact'' T_str]"

definition VenueCreate :: schema where
  "VenueCreate = \<lparr>model_fields = VenueBase, extra_forbid = False\<rparr>"

definition VenuePublic :: schema where
  "VenuePublic = \<lparr>model_fields = VenueBase @ [required ''id'' T_int], extra_forbid = False\<rparr>"

definition VenueUpdate :: schema where
  "VenueUpdate =
     \<lparr>model_fields =
        [optional ''name'' T_str,
         optional ''Tel'' T_str,
         optional ''Address'' T_str,
         optional ''Mail'' T_EmailStr,
         optional ''url'' T_HttpUrl,
         optional ''Fax'' T_str,
         optional ''Contact'' T_str],
      extra_forbid = False\<rparr>"

text \<open>
  The response models with a nested field: the name of the field, whether it is a list
  of child records (default \<^verbatim>\<open>[]\<close>) or one optional record (default \<^verbatim>\<open>None\<close>), and
  the child's model.
\<close>

datatype nested = List_of schema | Optional_of schema

record response_model =
  base :: schema
  nested_fields :: "(string \<times> nested) list"

definition plain :: "schema \<Rightarrow> response_model" where
  "plain cls = \<lparr>base = cls, nested_fields = []\<rparr>"

definition EventPublicWithSection :: response_model where
  "EventPublicWithSection =
     \<lparr>base = EventPublic, nested_fields = [(''section'', Optional_of SectionPublic)]\<rparr>"

definition SectionPublicWithEventes :: response_model where
  "SectionPublicWithEventes =
     \<lparr>base = SectionPublic, nested_fields = [(''eventes'', List_of EventPublic)]\<rparr>"

definition SchedulePublicWithSections :: response_model where
  "SchedulePublicWithSections =
     \<lparr>base = SchedulePublic, nested_fields = [(''sections'', List_of SectionPublic)]\<rparr>"

section \<open>Validation (pydantic)\<close>

text \<open>
  What a field of the given type accepts, and the value it becomes.  The model accepts
  what pydantic accepts and leaves as it is, and refuses the rest: also the values
  pydantic accepts only by converting them (digits in a string for an integer, say).
  A date is one of the calendar, in the years 1 to 9999.  An e-mail address is, as
  for URLs, of a plain kind: a local part of lower-case letters and digits and a
  domain of two labels or more that ends in \<^verbatim>\<open>com\<close>, \<^verbatim>\<open>net\<close> or \<^verbatim>\<open>org\<close> (the
  validator refuses some other endings), in the lengths an address may have.
\<close>

definition leap_year :: "nat \<Rightarrow> bool" where
  "leap_year y \<longleftrightarrow> (y mod 4 = 0 \<and> y mod 100 \<noteq> 0) \<or> y mod 400 = 0"

definition days_in_month :: "nat \<Rightarrow> nat \<Rightarrow> nat" where
  "days_in_month y m =
     (if m = 2 then (if leap_year y then 29 else 28)
      else if m = 4 \<or> m = 6 \<or> m = 9 \<or> m = 11 then 30
      else 31)"

definition is_date :: "nat \<Rightarrow> nat \<Rightarrow> nat \<Rightarrow> bool" where
  "is_date y m d \<longleftrightarrow>
     1 \<le> y \<and> y \<le> 9999 \<and> 1 \<le> m \<and> m \<le> 12 \<and> 1 \<le> d \<and> d \<le> days_in_month y m"

definition is_email :: "string \<Rightarrow> bool" where
  "is_email s \<longleftrightarrow>
     (let local_part = takeWhile (\<lambda>c. c \<noteq> CHR ''@'') s;
          domain = drop 1 (dropWhile (\<lambda>c. c \<noteq> CHR ''@'') s)
      in
        length s \<le> 254 \<and>
        local_part \<noteq> [] \<and> length local_part \<le> 64 \<and> list_all lower_or_digit local_part \<and>
        is_host domain \<and> 2 \<le> length (host_labels domain) \<and>
        last (host_labels domain) \<in> set [''com'', ''net'', ''org''])"

definition coerce :: "ftype \<Rightarrow> val \<Rightarrow> val option" where
  "coerce t v =
     (case t of
        T_str \<Rightarrow> (case v of VStr s \<Rightarrow> Some (VStr s) | _ \<Rightarrow> None)
      | T_int \<Rightarrow> (case v of VInt i \<Rightarrow> Some (VInt i) | _ \<Rightarrow> None)
      | T_HttpUrl \<Rightarrow> (case HttpUrl v of Inl e \<Rightarrow> None | Inr u \<Rightarrow> Some u)
      | T_EmailStr \<Rightarrow>
          (case v of VStr s \<Rightarrow> if is_email s then Some (VStr s) else None | _ \<Rightarrow> None)
      | T_Dict \<Rightarrow> (case v of VDict d \<Rightarrow> Some (VDict d) | _ \<Rightarrow> None)
      | T_time \<Rightarrow>
          (case v of
             VTime h m s \<Rightarrow> if h < 24 \<and> m < 60 \<and> s < 60 then Some (VTime h m s) else None
           | _ \<Rightarrow> None)
      | T_date \<Rightarrow>
          (case v of
             VDate y m d \<Rightarrow> if is_date y m d then Some (VDate y m d) else None
           | _ \<Rightarrow> None))"

text \<open>
  One field: a missing key takes the default, and a field without default is then an
  error; \<open>None\<close> is accepted where the annotation allows it.
\<close>

definition validate_field :: "field_info \<Rightarrow> val option \<Rightarrow> val option" where
  "validate_field f given =
     (case given of
        None \<Rightarrow> fdefault f
      | Some v \<Rightarrow>
          if v = VNone then (if noneable f then Some VNone else None)
          else coerce (ftyp f) v)"

fun validate_fields :: "field_info list \<Rightarrow> (string \<Rightarrow> val option) \<Rightarrow> pydict option" where
  "validate_fields [] src = Some []"
| "validate_fields (f # fs) src =
     (case validate_field f (src (fname f)) of
        None \<Rightarrow> None
      | Some v \<Rightarrow>
          (case validate_fields fs src of
             None \<Rightarrow> None
           | Some rest \<Rightarrow> Some ((fname f, v) # rest)))"

text \<open>
  An instance of a model class: its attributes and \<^verbatim>\<open>model_fields_set\<close>, the names of
  the fields the input gave explicitly.
\<close>

record model =
  attrs :: pydict
  fields_set :: "string list"

definition has_extra :: "schema \<Rightarrow> pydict \<Rightarrow> bool" where
  "has_extra cls body = list_ex (\<lambda>k. k \<notin> set (map fname (model_fields cls))) (map fst body)"

text \<open>
  FastAPI validates the JSON body against the model class of the handler's parameter
  before it calls the handler.
\<close>

definition validate_body :: "schema \<Rightarrow> pydict \<Rightarrow> error + model" where
  "validate_body cls body =
     (if extra_forbid cls \<and> has_extra cls body then Inl RequestValidationError
      else
        (case validate_fields (model_fields cls) (map_of body) of
           None \<Rightarrow> Inl RequestValidationError
         | Some a \<Rightarrow>
             Inr \<lparr>attrs = a,
                  fields_set = filter (\<lambda>k. map_of body k \<noteq> None) (map fname (model_fields cls))\<rparr>))"

text \<open>\<^verbatim>\<open>m.model_dump(exclude_unset=True)\<close> for an instance \<open>m\<close> of the class \<open>cls\<close>.\<close>

definition model_dump_exclude_unset :: "schema \<Rightarrow> model \<Rightarrow> pydict" where
  "model_dump_exclude_unset cls m =
     map (\<lambda>k. (k, getattr (attrs m) k))
       (filter (\<lambda>k. k \<in> set (fields_set m)) (map fname (model_fields cls)))"

section \<open>The tables\<close>

datatype table = Event | Section | Schedule | Venue

datatype sa_type = AutoString | Integer | HttpUrlType | JSON | Time | Date

record column =
  cname :: string
  sa_typ :: sa_type
  nullable :: bool

definition col :: "string \<Rightarrow> sa_type \<Rightarrow> bool \<Rightarrow> column" where
  "col n t nl = \<lparr>cname = n, sa_typ = t, nullable = nl\<rparr>"

text \<open>
  The columns SQLModel derives from the classes with \<^verbatim>\<open>table=True\<close>: the fields of the
  base class, then the table's own.  A column is nullable when its annotation admits
  \<open>None\<close>; the two \<^verbatim>\<open>sa_column=Column(JSON)\<close> keep SQLAlchemy's default, nullable; the
  primary key \<open>id\<close> is not nullable.
\<close>

fun columns :: "table \<Rightarrow> column list" where
  "columns Schedule =
     [col ''url'' HttpUrlType False,
      col ''title'' AutoString False,
      col ''venue'' AutoString False,
      col ''venue_url'' HttpUrlType True,
      col ''schedule_datetime'' AutoString False,
      col ''locations'' JSON True,
      col ''registration'' JSON True,
      col ''description'' AutoString True,
      col ''id'' Integer False]"
| "columns Section =
     [col ''title'' AutoString False,
      col ''sequence'' AutoString False,
      col ''status'' AutoString True,
      col ''id'' Integer False,
      col ''schedule_id'' Integer True]"
| "columns Event =
     [col ''start_time'' Time False,
      col ''end_time'' Time False,
      col ''event_date'' Date False,
      col ''location'' AutoString False,
      col ''section_id'' Integer True,
      col ''id'' Integer False]"
| "columns Venue =
     [col ''name'' AutoString False,
      col ''Tel'' AutoString True,
      col ''Address'' AutoString True,
      col ''Mail'' AutoString True,
      col ''url'' HttpUrlType True,
      col ''Fax'' AutoString True,
      col ''Contact'' AutoString True,
      col ''id'' Integer False]"

datatype relationship = One_to_many table string | Many_to_one table string

text \<open>
  The \<^verbatim>\<open>Relationship\<close> attributes of the table classes, each with the table on the
  other side and the foreign key column that carries it.
\<close>

fun relationships :: "table \<Rightarrow> (string \<times> relationship) list" where
  "relationships Schedule = [(''sections'', One_to_many Section ''schedule_id'')]"
| "relationships Section =
     [(''events'', One_to_many Event ''section_id''),
      (''schedule'', Many_to_one Schedule ''schedule_id'')]"
| "relationships Event = [(''section'', Many_to_one Section ''section_id'')]"
| "relationships Venue = []"

text \<open>
  \<^verbatim>\<open>Event.model_validate(event)\<close> and its siblings: the new table instance takes each of
  its fields from the attribute of that name of the request model, and its default
  \<open>None\<close> where the request model has no such attribute (\<open>id\<close>, \<open>schedule_id\<close>).
\<close>

definition model_validate :: "table \<Rightarrow> model \<Rightarrow> pydict" where
  "model_validate T m = map (\<lambda>c. (cname c, getattr (attrs m) (cname c))) (columns T)"

section \<open>The database and the session (SQLAlchemy over SQLite)\<close>

text \<open>
  A table is the list of its rows in storage order, which for SQLite is ascending
  \<open>id\<close>; a row holds what the bind processors wrote.  SQLite does not enforce the
  foreign keys (the engine is created without the pragma), so a foreign key column
  holds any integer SQLite can store.
\<close>

record database =
  event_rows :: "pydict list"
  section_rows :: "pydict list"
  schedule_rows :: "pydict list"
  venue_rows :: "pydict list"

fun rows :: "table \<Rightarrow> database \<Rightarrow> pydict list" where
  "rows Event db = event_rows db"
| "rows Section db = section_rows db"
| "rows Schedule db = schedule_rows db"
| "rows Venue db = venue_rows db"

fun put_rows :: "table \<Rightarrow> pydict list \<Rightarrow> database \<Rightarrow> database" where
  "put_rows Event rs db = db\<lparr>event_rows := rs\<rparr>"
| "put_rows Section rs db = db\<lparr>section_rows := rs\<rparr>"
| "put_rows Schedule rs db = db\<lparr>schedule_rows := rs\<rparr>"
| "put_rows Venue rs db = db\<lparr>venue_rows := rs\<rparr>"

text \<open>\<^verbatim>\<open>create_db_and_tables\<close>: every table dropped and created again, empty.\<close>

definition create_db_and_tables :: database where
  "create_db_and_tables =
     \<lparr>event_rows = [], section_rows = [], schedule_rows = [], venue_rows = []\<rparr>"

text \<open>
  Python's integers are unbounded, SQLite's have 64 bits with a sign.  Every integer
  that goes into a statement (a key to look for, a value to store, an \<open>OFFSET\<close>, a
  \<open>LIMIT\<close>) is bound as a parameter, and binding one outside that range raises
  \<open>OverflowError\<close> before the statement runs.
\<close>

definition int64 :: "int \<Rightarrow> bool" where
  "int64 i \<longleftrightarrow> - (2 ^ 63) \<le> i \<and> i < 2 ^ 63"

definition overflows :: "pydict \<Rightarrow> bool" where
  "overflows params = list_ex (\<lambda>(k, v). case v of VInt i \<Rightarrow> \<not> int64 i | _ \<Rightarrow> False) params"

text \<open>The key of a row or of an instance (0 where \<open>id\<close> holds no integer).\<close>

definition row_id :: "pydict \<Rightarrow> int" where
  "row_id r = (case getattr r ''id'' of VInt i \<Rightarrow> i | _ \<Rightarrow> 0)"

text \<open>
  A column of type \<open>HttpUrlType\<close> is written through \<^verbatim>\<open>process_bind_param\<close> and read
  through \<^verbatim>\<open>process_result_value\<close>, whatever the value, \<open>None\<close> included; the other
  column types give back what was stored.
\<close>

definition bind_processor :: "sa_type \<Rightarrow> val \<Rightarrow> val" where
  "bind_processor t v = (if t = HttpUrlType then process_bind_param v else v)"

definition result_processor :: "sa_type \<Rightarrow> val \<Rightarrow> error + val" where
  "result_processor t v = (if t = HttpUrlType then process_result_value v else Inr v)"

definition bind_params :: "table \<Rightarrow> pydict \<Rightarrow> pydict" where
  "bind_params T obj =
     map (\<lambda>c. (cname c, bind_processor (sa_typ c) (getattr obj (cname c)))) (columns T)"

fun fetch_columns :: "column list \<Rightarrow> pydict \<Rightarrow> error + pydict" where
  "fetch_columns [] r = Inr []"
| "fetch_columns (c # cs) r =
     (case result_processor (sa_typ c) (getattr r (cname c)) of
        Inl e \<Rightarrow> Inl e
      | Inr v \<Rightarrow>
          (case fetch_columns cs r of
             Inl e \<Rightarrow> Inl e
           | Inr obj \<Rightarrow> Inr ((cname c, v) # obj)))"

text \<open>Turning a stored row into an instance of the table class.\<close>

definition fetch :: "table \<Rightarrow> pydict \<Rightarrow> error + pydict" where
  "fetch T r = fetch_columns (columns T) r"

fun fetch_all :: "table \<Rightarrow> pydict list \<Rightarrow> error + pydict list" where
  "fetch_all T [] = Inr []"
| "fetch_all T (r # rs) =
     (case fetch T r of
        Inl e \<Rightarrow> Inl e
      | Inr obj \<Rightarrow>
          (case fetch_all T rs of
             Inl e \<Rightarrow> Inl e
           | Inr objs \<Rightarrow> Inr (obj # objs)))"

text \<open>
  \<^verbatim>\<open>session.get(cls, pk)\<close> in a session that has loaded nothing yet: the key is bound
  to \<open>SELECT ... WHERE id = ?\<close>; the result is the instance, \<open>None\<close> when no row has
  the key.
\<close>

definition session_get :: "database \<Rightarrow> table \<Rightarrow> int \<Rightarrow> error + pydict option" where
  "session_get db T pk =
     (if \<not> int64 pk then Inl OverflowError
      else
        (case find (\<lambda>r. row_id r = pk) (rows T db) of
           None \<Rightarrow> Inr None
         | Some r \<Rightarrow>
             (case fetch T r of
                Inl e \<Rightarrow> Inl e
              | Inr obj \<Rightarrow> Inr (Some obj))))"

text \<open>\<^verbatim>\<open>session.refresh(obj)\<close>: the attributes read again from the row of the instance.\<close>

definition session_refresh :: "database \<Rightarrow> table \<Rightarrow> pydict \<Rightarrow> error + pydict" where
  "session_refresh db T obj =
     (case session_get db T (row_id obj) of
        Inl e \<Rightarrow> Inl e
      | Inr None \<Rightarrow> Inl InvalidRequestError
      | Inr (Some obj') \<Rightarrow> Inr obj')"

text \<open>A \<open>NULL\<close> in a column that is \<open>NOT NULL\<close>.\<close>

definition not_null_violation :: "table \<Rightarrow> pydict \<Rightarrow> bool" where
  "not_null_violation T params =
     list_ex (\<lambda>c. \<not> nullable c \<and> getattr params (cname c) = VNone) (columns T)"

text \<open>
  SQLite gives a row inserted without \<open>id\<close> the largest \<open>id\<close> of the table plus one,
  and 1 in an empty table.  When the largest \<open>id\<close> is the largest integer there is,
  SQLite tries positive integers at random until it finds one that no row has; of
  these the model takes the least.
\<close>

definition unused_rowid :: "int list \<Rightarrow> int" where
  "unused_rowid ids =
     (case find (\<lambda>i. i \<notin> set ids) (map int [1 ..< length ids + 2]) of
        Some i \<Rightarrow> i
      | None \<Rightarrow> 1)"

definition next_rowid :: "pydict list \<Rightarrow> int" where
  "next_rowid rs =
     (case map row_id rs of
        [] \<Rightarrow> 1
      | i # ids \<Rightarrow>
          if fold max ids i = 2 ^ 63 - 1 then unused_rowid (i # ids) else fold max ids i + 1)"

text \<open>
  \<^verbatim>\<open>session.add(obj); session.commit()\<close> for a new instance: the \<open>INSERT\<close>.  The result
  is the database and the instance with its key.
\<close>

definition flush_insert :: "database \<Rightarrow> table \<Rightarrow> pydict \<Rightarrow> error + database \<times> pydict" where
  "flush_insert db T obj =
     (let obj' =
        (case getattr obj ''id'' of
           VNone \<Rightarrow> setattr obj ''id'' (VInt (next_rowid (rows T db)))
         | _ \<Rightarrow> obj);
          params = bind_params T obj'
      in
        if overflows params then Inl OverflowError
        else if not_null_violation T params then Inl IntegrityError
        else if row_id params \<in> set (map row_id (rows T db)) then Inl IntegrityError
        else Inr (put_rows T (insort_key row_id params (rows T db)) db, obj'))"

text \<open>
  \<^verbatim>\<open>session.add(obj); session.commit()\<close> for an instance that \<^verbatim>\<open>session.get\<close> loaded
  under the key \<open>pk\<close> and \<^verbatim>\<open>setattr\<close> changed.  The session compares the instance
  with the attributes it loaded and writes the columns that differ:
  \<open>UPDATE ... SET ... WHERE id = pk\<close>.  When \<open>id\<close>, the primary key, is among them,
  the row of the key \<open>pk\<close> moves to the place of its new key, which must be an integer
  no row has.
\<close>

definition dirty :: "table \<Rightarrow> pydict \<Rightarrow> pydict \<Rightarrow> column list" where
  "dirty T loaded obj =
     filter (\<lambda>c. getattr obj (cname c) \<noteq> getattr loaded (cname c)) (columns T)"

definition sql_set :: "pydict \<Rightarrow> pydict \<Rightarrow> pydict" where
  "sql_set params r = fold (\<lambda>(k, v) r'. setattr r' k v) params r"

definition flush_update ::
  "database \<Rightarrow> table \<Rightarrow> int \<Rightarrow> pydict \<Rightarrow> pydict \<Rightarrow> error + database" where
  "flush_update db T pk loaded obj =
     (let changed = dirty T loaded obj;
          params = map (\<lambda>c. (cname c, bind_processor (sa_typ c) (getattr obj (cname c)))) changed
      in
        if overflows params then Inl OverflowError
        else if list_ex (\<lambda>c. \<not> nullable c \<and> getattr params (cname c) = VNone) changed
        then Inl IntegrityError
        else if ''id'' \<notin> set (map fst params) then
          Inr (put_rows T (map (\<lambda>r. if row_id r = pk then sql_set params r else r) (rows T db)) db)
        else
          (case getattr params ''id'' of
             VInt new \<Rightarrow>
               if new \<in> set (map row_id (rows T db)) then Inl IntegrityError
               else
                 (case find (\<lambda>r. row_id r = pk) (rows T db) of
                    None \<Rightarrow> Inr db
                  | Some r \<Rightarrow>
                      Inr (put_rows T
                            (insort_key row_id (sql_set params r)
                               (filter (\<lambda>r. row_id r \<noteq> pk) (rows T db))) db))
           | _ \<Rightarrow> Inl IntegrityError))"

text \<open>
  What an update may write without the database or a later read refusing it: no
  \<open>None\<close> for a column that is \<open>NOT NULL\<close>, an \<open>HttpUrl\<close> for a column of type
  \<open>HttpUrlType\<close> (a \<open>None\<close> there is stored as text and cannot be read back), and for
  no integer outside SQLite's range, and for the key either the value it has or an
  integer no row has.
\<close>

definition storable :: "table \<Rightarrow> pydict \<Rightarrow> bool" where
  "storable T data \<longleftrightarrow>
     list_all
       (\<lambda>c. case map_of data (cname c) of
               None \<Rightarrow> True
             | Some v \<Rightarrow>
                 if sa_typ c = HttpUrlType then HttpUrl v = Inr v
                 else nullable c \<or> v \<noteq> VNone)
       (columns T) \<and>
     \<not> overflows data"

definition key_free :: "table \<Rightarrow> database \<Rightarrow> pydict \<Rightarrow> pydict \<Rightarrow> bool" where
  "key_free T db loaded data =
     (case map_of data ''id'' of
        None \<Rightarrow> True
      | Some v \<Rightarrow>
          v = getattr loaded ''id'' \<or>
          (case v of
             VInt new \<Rightarrow> int64 new \<and> new \<notin> set (map row_id (rows T db))
           | _ \<Rightarrow> False))"

text \<open>
  \<^verbatim>\<open>session.delete(obj); session.commit()\<close>.  No relationship sets a cascade, so for
  each one-to-many relationship of the deleted instance SQLAlchemy first sets the
  foreign key of the children to \<open>NULL\<close>, and then deletes the row.  (The child tables
  have no \<open>HttpUrlType\<close> column: loading the children cannot raise.)
\<close>

fun nullify_children :: "int \<Rightarrow> string \<times> relationship \<Rightarrow> database \<Rightarrow> database" where
  "nullify_children pk (name, One_to_many C fk) db =
     put_rows C
       (map (\<lambda>r. if getattr r fk = VInt pk then setattr r fk VNone else r) (rows C db)) db"
| "nullify_children pk (name, Many_to_one P fk) db = db"

definition flush_delete :: "database \<Rightarrow> table \<Rightarrow> int \<Rightarrow> database" where
  "flush_delete db T pk =
     (let db' = fold (nullify_children pk) (relationships T) db
      in put_rows T (filter (\<lambda>r. row_id r \<noteq> pk) (rows T db')) db')"

text \<open>
  \<^verbatim>\<open>session.exec(select(cls).offset(offset).limit(limit)).all()\<close>: the statement is
  \<open>SELECT ... LIMIT ? OFFSET ?\<close> with both numbers bound.  SQLite reads a negative
  \<open>OFFSET\<close> as zero and a negative \<open>LIMIT\<close> as no limit.
\<close>

definition sql_offset :: "int \<Rightarrow> 'a list \<Rightarrow> 'a list" where
  "sql_offset n rs = drop (nat n) rs"

definition sql_limit :: "int \<Rightarrow> 'a list \<Rightarrow> 'a list" where
  "sql_limit n rs = (if n < 0 then rs else take (nat n) rs)"

definition select_offset_limit :: "database \<Rightarrow> table \<Rightarrow> int \<Rightarrow> int \<Rightarrow> error + pydict list" where
  "select_offset_limit db T offset limit =
     (if \<not> int64 offset \<or> \<not> int64 limit then Inl OverflowError
      else fetch_all T (sql_limit limit (sql_offset offset (rows T db))))"

text \<open>A new instance whose columns of type \<open>HttpUrlType\<close> all hold a value.\<close>

definition urls_given :: "table \<Rightarrow> pydict \<Rightarrow> bool" where
  "urls_given T a =
     list_all (\<lambda>c. if sa_typ c = HttpUrlType then getattr a (cname c) \<noteq> VNone else True)
       (columns T)"

section \<open>The handlers (lines 202 to 421)\<close>

text \<open>
  A handler takes the database its session sees and its validated parameters, and
  gives what it returns or raises together with the database after the request.  A
  request whose \<^verbatim>\<open>commit\<close> raises leaves the database as it was.
\<close>

type_synonym 'a outcome = "(error + 'a) \<times> database"

subsection \<open>Event (lines 202 to 253)\<close>

definition create_event :: "database \<Rightarrow> model \<Rightarrow> pydict outcome" where
  "create_event db event =
     (let db_event = model_validate Event event in
        case flush_insert db Event db_event of
          Inl e \<Rightarrow> (Inl e, db)
        | Inr (db', db_event') \<Rightarrow>
            (case session_refresh db' Event db_event' of
               Inl e \<Rightarrow> (Inl e, db')
             | Inr db_event'' \<Rightarrow> (Inr db_event'', db')))"

definition read_events :: "database \<Rightarrow> int \<Rightarrow> int \<Rightarrow> pydict list outcome" where
  "read_events db offset limit =
     (case select_offset_limit db Event offset limit of
        Inl e \<Rightarrow> (Inl e, db)
      | Inr eventes \<Rightarrow> (Inr eventes, db))"

definition read_event :: "database \<Rightarrow> int \<Rightarrow> pydict outcome" where
  "read_event db event_id =
     (case session_get db Event event_id of
        Inl e \<Rightarrow> (Inl e, db)
      | Inr None \<Rightarrow> (Inl (HTTPException 404 ''Event not found''), db)
      | Inr (Some event) \<Rightarrow> (Inr event, db))"

definition update_event :: "database \<Rightarrow> int \<Rightarrow> model \<Rightarrow> pydict outcome" where
  "update_event db event_id event =
     (case session_get db Event event_id of
        Inl e \<Rightarrow> (Inl e, db)
      | Inr None \<Rightarrow> (Inl (HTTPException 404 ''Event not found''), db)
      | Inr (Some db_event) \<Rightarrow>
          (let event_data = model_dump_exclude_unset EventUpdate event;
               db_event' = fold (\<lambda>(key, value) obj. setattr obj key value) event_data db_event
           in
             case flush_update db Event event_id db_event db_event' of
               Inl e \<Rightarrow> (Inl e, db)
             | Inr db' \<Rightarrow>
                 (case session_refresh db' Event db_event' of
                    Inl e \<Rightarrow> (Inl e, db')
                  | Inr db_event'' \<Rightarrow> (Inr db_event'', db'))))"

definition delete_event :: "database \<Rightarrow> int \<Rightarrow> pydict outcome" where
  "delete_event db event_id =
     (case session_get db Event event_id of
        Inl e \<Rightarrow> (Inl e, db)
      | Inr None \<Rightarrow> (Inl (HTTPException 404 ''Event not found''), db)
      | Inr (Some event) \<Rightarrow> (Inr [(''ok'', VBool True)], flush_delete db Event event_id))"

subsection \<open>Section (lines 256 to 310)\<close>

definition create_section :: "database \<Rightarrow> model \<Rightarrow> pydict outcome" where
  "create_section db section =
     (let db_section = model_validate Section section in
        case flush_insert db Section db_section of
          Inl e \<Rightarrow> (Inl e, db)
        | Inr (db', db_section') \<Rightarrow>
            (case session_refresh db' Section db_section' of
               Inl e \<Rightarrow> (Inl e, db')
             | Inr db_section'' \<Rightarrow> (Inr db_section'', db')))"

definition read_sections :: "database \<Rightarrow> int \<Rightarrow> int \<Rightarrow> pydict list outcome" where
  "read_sections db offset limit =
     (case select_offset_limit db Section offset limit of
        Inl e \<Rightarrow> (Inl e, db)
      | Inr sections \<Rightarrow> (Inr sections, db))"

definition read_section :: "database \<Rightarrow> int \<Rightarrow> pydict outcome" where
  "read_section db section_id =
     (case session_get db Section section_id of
        Inl e \<Rightarrow> (Inl e, db)
      | Inr None \<Rightarrow> (Inl (HTTPException 404 ''Section not found''), db)
      | Inr (Some section) \<Rightarrow> (Inr section, db))"

definition update_section :: "database \<Rightarrow> int \<Rightarrow> model \<Rightarrow> pydict outcome" where
  "update_section db section_id section =
     (case session_get db Section section_id of
        Inl e \<Rightarrow> (Inl e, db)
      | Inr None \<Rightarrow> (Inl (HTTPException 404 ''Section not found''), db)
      | Inr (Some db_section) \<Rightarrow>
          (let section_data = model_dump_exclude_unset SectionUpdate section;
               db_section' = fold (\<lambda>(key, value) obj. setattr obj key value) section_data db_section
           in
             case flush_update db Section section_id db_section db_section' of
               Inl e \<Rightarrow> (Inl e, db)
             | Inr db' \<Rightarrow>
                 (case session_refresh db' Section db_section' of
                    Inl e \<Rightarrow> (Inl e, db')
                  | Inr db_section'' \<Rightarrow> (Inr db_section'', db'))))"

definition delete_section :: "database \<Rightarrow> int \<Rightarrow> pydict outcome" where
  "delete_section db section_id =
     (case session_get db Section section_id of
        Inl e \<Rightarrow> (Inl e, db)
      | Inr None \<Rightarrow> (Inl (HTTPException 404 ''Section not found''), db)
      | Inr (Some section) \<Rightarrow> (Inr [(''ok'', VBool True)], flush_delete db Section section_id))"

subsection \<open>Schedule (lines 313 to 367)\<close>

definition create_schedule :: "database \<Rightarrow> model \<Rightarrow> pydict outcome" where
  "create_schedule db schedule =
     (let db_schedule = model_validate Schedule schedule in
        case flush_insert db Schedule db_schedule of
          Inl e \<Rightarrow> (Inl e, db)
        | Inr (db', db_schedule') \<Rightarrow>
            (case session_refresh db' Schedule db_schedule' of
               Inl e \<Rightarrow> (Inl e, db')
             | Inr db_schedule'' \<Rightarrow> (Inr db_schedule'', db')))"

definition read_schedules :: "database \<Rightarrow> int \<Rightarrow> int \<Rightarrow> pydict list outcome" where
  "read_schedules db offset limit =
     (case select_offset_limit db Schedule offset limit of
        Inl e \<Rightarrow> (Inl e, db)
      | Inr schedules \<Rightarrow> (Inr schedules, db))"

definition read_schedule :: "database \<Rightarrow> int \<Rightarrow> pydict outcome" where
  "read_schedule db schedule_id =
     (case session_get db Schedule schedule_id of
        Inl e \<Rightarrow> (Inl e, db)
      | Inr None \<Rightarrow> (Inl (HTTPException 404 ''Schedule not found''), db)
      | Inr (Some schedule) \<Rightarrow> (Inr schedule, db))"

definition update_schedule :: "database \<Rightarrow> int \<Rightarrow> model \<Rightarrow> pydict outcome" where
  "update_schedule db schedule_id schedule =
     (case session_get db Schedule schedule_id of
        Inl e \<Rightarrow> (Inl e, db)
      | Inr None \<Rightarrow> (Inl (HTTPException 404 ''Schedule not found''), db)
      | Inr (Some db_schedule) \<Rightarrow>
          (let schedule_data = model_dump_exclude_unset ScheduleUpdate schedule;
               db_schedule' = fold (\<lambda>(key, value) obj. setattr obj key value) schedule_data db_schedule
           in
             case flush_update db Schedule schedule_id db_schedule db_schedule' of
               Inl e \<Rightarrow> (Inl e, db)
             | Inr db' \<Rightarrow>
                 (case session_refresh db' Schedule db_schedule' of
                    Inl e \<Rightarrow> (Inl e, db')
                  | Inr db_schedule'' \<Rightarrow> (Inr db_schedule'', db'))))"

definition delete_schedule :: "database \<Rightarrow> int \<Rightarrow> pydict outcome" where
  "delete_schedule db schedule_id =
     (case session_get db Schedule schedule_id of
        Inl e \<Rightarrow> (Inl e, db)
      | Inr None \<Rightarrow> (Inl (HTTPException 404 ''Schedule not found''), db)
      | Inr (Some schedule) \<Rightarrow> (Inr [(''ok'', VBool True)], flush_delete db Schedule schedule_id))"

subsection \<open>Venue (lines 370 to 421)\<close>

definition create_venue :: "database \<Rightarrow> model \<Rightarrow> pydict outcome" where
  "create_venue db venue =
     (let db_venue = model_validate Venue venue in
        case flush_insert db Venue db_venue of
          Inl e \<Rightarrow> (Inl e, db)
        | Inr (db', db_venue') \<Rightarrow>
            (case session_refresh db' Venue db_venue' of
               Inl e \<Rightarrow> (Inl e, db')
             | Inr db_venue'' \<Rightarrow> (Inr db_venue'', db')))"

definition read_venues :: "database \<Rightarrow> int \<Rightarrow> int \<Rightarrow> pydict list outcome" where
  "read_venues db offset limit =
     (case select_offset_limit db Venue offset limit of
        Inl e \<Rightarrow> (Inl e, db)
      | Inr venuees \<Rightarrow> (Inr venuees, db))"

definition read_venue :: "database \<Rightarrow> int \<Rightarrow> pydict outcome" where
  "read_venue db venue_id =
     (case session_get db Venue venue_id of
        Inl e \<Rightarrow> (Inl e, db)
      | Inr None \<Rightarrow> (Inl (HTTPException 404 ''Venue not found''), db)
      | Inr (Some venue) \<Rightarrow> (Inr venue, db))"

definition update_venue :: "database \<Rightarrow> int \<Rightarrow> model \<Rightarrow> pydict outcome" where
  "update_venue db venue_id venue =
     (case session_get db Venue venue_id of
        Inl e \<Rightarrow> (Inl e, db)
      | Inr None \<Rightarrow> (Inl (HTTPException 404 ''Venue not found''), db)
      | Inr (Some db_venue) \<Rightarrow>
          (let venue_data = model_dump_exclude_unset VenueUpdate venue;
               db_venue' = fold (\<lambda>(key, value) obj. setattr obj key value) venue_data db_venue
           in
             case flush_update db Venue venue_id db_venue db_venue' of
               Inl e \<Rightarrow> (Inl e, db)
             | Inr db' \<Rightarrow>
                 (case session_refresh db' Venue db_venue' of
                    Inl e \<Rightarrow> (Inl e, db')
                  | Inr db_venue'' \<Rightarrow> (Inr db_venue'', db'))))"

definition delete_venue :: "database \<Rightarrow> int \<Rightarrow> pydict outcome" where
  "delete_venue db venue_id =
     (case session_get db Venue venue_id of
        Inl e \<Rightarrow> (Inl e, db)
      | Inr None \<Rightarrow> (Inl (HTTPException 404 ''Venue not found''), db)
      | Inr (Some venue) \<Rightarrow> (Inr [(''ok'', VBool True)], flush_delete db Venue venue_id))"

section \<open>The routes: validation, handler, response model\<close>

text \<open>
  FastAPI builds the response from what the handler returned by validating it, from
  its attributes, against the \<^verbatim>\<open>response_model\<close> of the route, while the session is
  still open.  Reading an attribute that is a relationship loads it lazily; a name
  that is no attribute of the instance leaves the field to its default.
\<close>

definition relationship_value :: "database \<Rightarrow> pydict \<Rightarrow> relationship \<Rightarrow> error + val" where
  "relationship_value db obj rel =
     (case rel of
        One_to_many C fk \<Rightarrow>
          (case fetch_all C (filter (\<lambda>r. getattr r fk = VInt (row_id obj)) (rows C db)) of
             Inl e \<Rightarrow> Inl e
           | Inr children \<Rightarrow> Inr (VList (map VDict children)))
      | Many_to_one P fk \<Rightarrow>
          (case getattr obj fk of
             VInt i \<Rightarrow>
               (case session_get db P i of
                  Inl e \<Rightarrow> Inl e
                | Inr None \<Rightarrow> Inr VNone
                | Inr (Some parent) \<Rightarrow> Inr (VDict parent))
           | _ \<Rightarrow> Inr VNone))"

definition orm_getattr :: "database \<Rightarrow> table \<Rightarrow> pydict \<Rightarrow> string \<Rightarrow> error + val option" where
  "orm_getattr db T obj name =
     (if name \<in> set (map cname (columns T)) then Inr (Some (getattr obj name))
      else
        (case map_of (relationships T) name of
           None \<Rightarrow> Inr None
         | Some rel \<Rightarrow>
             (case relationship_value db obj rel of
                Inl e \<Rightarrow> Inl e
              | Inr v \<Rightarrow> Inr (Some v))))"

definition validate_child :: "schema \<Rightarrow> val \<Rightarrow> val option" where
  "validate_child cls v =
     (case v of
        VDict obj \<Rightarrow> map_option VDict (validate_fields (model_fields cls) (map_of obj))
      | _ \<Rightarrow> None)"

definition validate_nested :: "nested \<Rightarrow> val option \<Rightarrow> val option" where
  "validate_nested kind given =
     (case kind of
        List_of cls \<Rightarrow>
          (case given of
             None \<Rightarrow> Some (VList [])
           | Some (VList xs) \<Rightarrow> map_option VList (those (map (validate_child cls) xs))
           | Some _ \<Rightarrow> None)
      | Optional_of cls \<Rightarrow>
          (case given of
             None \<Rightarrow> Some VNone
           | Some VNone \<Rightarrow> Some VNone
           | Some v \<Rightarrow> validate_child cls v))"

fun serialize_nested ::
  "database \<Rightarrow> table \<Rightarrow> pydict \<Rightarrow> (string \<times> nested) list \<Rightarrow> error + pydict" where
  "serialize_nested db T obj [] = Inr []"
| "serialize_nested db T obj ((name, kind) # others) =
     (case orm_getattr db T obj name of
        Inl e \<Rightarrow> Inl e
      | Inr given \<Rightarrow>
          (case validate_nested kind given of
             None \<Rightarrow> Inl ResponseValidationError
           | Some v \<Rightarrow>
               (case serialize_nested db T obj others of
                  Inl e \<Rightarrow> Inl e
                | Inr rest \<Rightarrow> Inr ((name, v) # rest))))"

definition serialize_response :: "database \<Rightarrow> table \<Rightarrow> response_model \<Rightarrow> pydict \<Rightarrow> error + val" where
  "serialize_response db T rm obj =
     (case validate_fields (model_fields (base rm)) (map_of obj) of
        None \<Rightarrow> Inl ResponseValidationError
      | Some plain_part \<Rightarrow>
          (case serialize_nested db T obj (nested_fields rm) of
             Inl e \<Rightarrow> Inl e
           | Inr nested_part \<Rightarrow> Inr (VDict (plain_part @ nested_part))))"

fun serialize_list :: "database \<Rightarrow> table \<Rightarrow> response_model \<Rightarrow> pydict list \<Rightarrow> error + val list" where
  "serialize_list db T rm [] = Inr []"
| "serialize_list db T rm (obj # objs) =
     (case serialize_response db T rm obj of
        Inl e \<Rightarrow> Inl e
      | Inr v \<Rightarrow>
          (case serialize_list db T rm objs of
             Inl e \<Rightarrow> Inl e
           | Inr vs \<Rightarrow> Inr (v # vs)))"

definition respond :: "table \<Rightarrow> response_model \<Rightarrow> pydict outcome \<Rightarrow> val outcome" where
  "respond T rm out =
     (case out of
        (Inl e, db) \<Rightarrow> (Inl e, db)
      | (Inr obj, db) \<Rightarrow> (serialize_response db T rm obj, db))"

definition respond_list :: "table \<Rightarrow> response_model \<Rightarrow> pydict list outcome \<Rightarrow> val outcome" where
  "respond_list T rm out =
     (case out of
        (Inl e, db) \<Rightarrow> (Inl e, db)
      | (Inr objs, db) \<Rightarrow>
          (case serialize_list db T rm objs of
             Inl e \<Rightarrow> (Inl e, db)
           | Inr vs \<Rightarrow> (Inr (VList vs), db)))"

text \<open>A route without \<^verbatim>\<open>response_model\<close> sends the dictionary the handler returned.\<close>

definition respond_dict :: "pydict outcome \<Rightarrow> val outcome" where
  "respond_dict out =
     (case out of
        (Inl e, db) \<Rightarrow> (Inl e, db)
      | (Inr d, db) \<Rightarrow> (Inr (VDict d), db))"

text \<open>
  The query parameters of the list routes: \<^verbatim>\<open>offset: int = 0\<close> and
  \<^verbatim>\<open>limit: int = Query(default=100, le=100)\<close>.
\<close>

definition query_offset :: "int option \<Rightarrow> int" where
  "query_offset q = (case q of None \<Rightarrow> 0 | Some n \<Rightarrow> n)"

definition query_limit :: "int option \<Rightarrow> error + int" where
  "query_limit q =
     (case q of
        None \<Rightarrow> Inr 100
      | Some n \<Rightarrow> if n \<le> 100 then Inr n else Inl RequestValidationError)"

definition POST_events :: "database \<Rightarrow> pydict \<Rightarrow> val outcome" where
  "POST_events db body =
     (case validate_body EventCreate body of
        Inl e \<Rightarrow> (Inl e, db)
      | Inr event \<Rightarrow> respond Event (plain EventPublic) (create_event db event))"

definition GET_events :: "database \<Rightarrow> int option \<Rightarrow> int option \<Rightarrow> val outcome" where
  "GET_events db offset limit =
     (case query_limit limit of
        Inl e \<Rightarrow> (Inl e, db)
      | Inr limit' \<Rightarrow>
          respond_list Event (plain EventPublic) (read_events db (query_offset offset) limit'))"

definition GET_event :: "database \<Rightarrow> int \<Rightarrow> val outcome" where
  "GET_event db event_id = respond Event (EventPublicWithSection) (read_event db event_id)"

definition PATCH_event :: "database \<Rightarrow> int \<Rightarrow> pydict \<Rightarrow> val outcome" where
  "PATCH_event db event_id body =
     (case validate_body EventUpdate body of
        Inl e \<Rightarrow> (Inl e, db)
      | Inr event \<Rightarrow> respond Event (plain EventPublic) (update_event db event_id event))"

definition DELETE_event :: "database \<Rightarrow> int \<Rightarrow> val outcome" where
  "DELETE_event db event_id = respond_dict (delete_event db event_id)"

definition POST_sections :: "database \<Rightarrow> pydict \<Rightarrow> val outcome" where
  "POST_sections db body =
     (case validate_body SectionCreate body of
        Inl e \<Rightarrow> (Inl e, db)
      | Inr section \<Rightarrow> respond Section (plain SectionPublic) (create_section db section))"

definition GET_sections :: "database \<Rightarrow> int option \<Rightarrow> int option \<Rightarrow> val outcome" where
  "GET_sections db offset limit =
     (case query_limit limit of
        Inl e \<Rightarrow> (Inl e, db)
      | Inr limit' \<Rightarrow>
          respond_list Section (plain SectionPublic) (read_sections db (query_offset offset) limit'))"

definition GET_section :: "database \<Rightarrow> int \<Rightarrow> val outcome" where
  "GET_section db section_id = respond Section (SectionPublicWithEventes) (read_section db section_id)"

definition PATCH_section :: "database \<Rightarrow> int \<Rightarrow> pydict \<Rightarrow> val outcome" where
  "PATCH_section db section_id body =
     (case validate_body SectionUpdate body of
        Inl e \<Rightarrow> (Inl e, db)
      | Inr section \<Rightarrow> respond Section (plain SectionPublic) (update_section db section_id section))"

definition DELETE_section :: "database \<Rightarrow> int \<Rightarrow> val outcome" where
  "DELETE_section db section_id = respond_dict (delete_section db section_id)"

definition POST_schedules :: "database \<Rightarrow> pydict \<Rightarrow> val outcome" where
  "POST_schedules db body =
     (case validate_body ScheduleCreate body of
        Inl e \<Rightarrow> (Inl e, db)
      | Inr schedule \<Rightarrow> respond Schedule (plain SchedulePublic) (create_schedule db schedule))"

definition GET_schedules :: "database \<Rightarrow> int option \<Rightarrow> int option \<Rightarrow> val outcome" where
  "GET_schedules db offset limit =
     (case query_limit limit of
        Inl e \<Rightarrow> (Inl e, db)
      | Inr limit' \<Rightarrow>
          respond_list Schedule (plain SchedulePublic) (read_schedules db (query_offset offset) limit'))"

definition GET_schedule :: "database \<Rightarrow> int \<Rightarrow> val outcome" where
  "GET_schedule db schedule_id = respond Schedule (SchedulePublicWithSections) (read_schedule db schedule_id)"

definition PATCH_schedule :: "database \<Rightarrow> int \<Rightarrow> pydict \<Rightarrow> val outcome" where
  "PATCH_schedule db schedule_id body =
     (case validate_body ScheduleUpdate body of
        Inl e \<Rightarrow> (Inl e, db)
      | Inr schedule \<Rightarrow> respond Schedule (plain SchedulePublic) (update_schedule db schedule_id schedule))"

definition DELETE_schedule :: "database \<Rightarrow> int \<Rightarrow> val outcome" where
  "DELETE_schedule db schedule_id = respond_dict (delete_schedule db schedule_id)"

definition POST_venues :: "database \<Rightarrow> pydict \<Rightarrow> val outcome" where
  "POST_venues db body =
     (case validate_body VenueCreate body of
        Inl e \<Rightarrow> (Inl e, db)
      | Inr venue \<Rightarrow> respond Venue (plain VenuePublic) (create_venue db venue))"

definition GET_venues :: "database \<Rightarrow> int option \<Rightarrow> int option \<Rightarrow> val outcome" where
  "GET_venues db offset limit =
     (case query_limit limit of
        Inl e \<Rightarrow> (Inl e, db)
      | Inr limit' \<Rightarrow>
          respond_list Venue (plain VenuePublic) (read_venues db (query_offset offset) limit'))"

definition GET_venue :: "database \<Rightarrow> int \<Rightarrow> val outcome" where
  "GET_venue db venue_id = respond Venue (plain VenuePublic) (read_venue db venue_id)"

definition PATCH_venue :: "database \<Rightarrow> int \<Rightarrow> pydict \<Rightarrow> val outcome" where
  "PATCH_venue db venue_id body =
     (case validate_body VenueUpdate body of
        Inl e \<Rightarrow> (Inl e, db)
      | Inr venue \<Rightarrow> respond Venue (plain VenuePublic) (update_venue db venue_id venue))"

definition DELETE_venue :: "database \<Rightarrow> int \<Rightarrow> val outcome" where
  "DELETE_venue db venue_id = respond_dict (delete_venue db venue_id)"

section \<open>The operations by entity\<close>

text \<open>
  Each entity has the same five operations; the functions below pick the handler of an
  entity, the model class of its update payload and the error it raises for an
  identifier that is not in its table.
\<close>

fun create_op :: "table \<Rightarrow> database \<Rightarrow> model \<Rightarrow> pydict outcome" where
  "create_op Event = create_event"
| "create_op Section = create_section"
| "create_op Schedule = create_schedule"
| "create_op Venue = create_venue"

fun list_op :: "table \<Rightarrow> database \<Rightarrow> int \<Rightarrow> int \<Rightarrow> pydict list outcome" where
  "list_op Event = read_events"
| "list_op Section = read_sections"
| "list_op Schedule = read_schedules"
| "list_op Venue = read_venues"

fun read_op :: "table \<Rightarrow> database \<Rightarrow> int \<Rightarrow> pydict outcome" where
  "read_op Event = read_event"
| "read_op Section = read_section"
| "read_op Schedule = read_schedule"
| "read_op Venue = read_venue"

fun update_op :: "table \<Rightarrow> database \<Rightarrow> int \<Rightarrow> model \<Rightarrow> pydict outcome" where
  "update_op Event = update_event"
| "update_op Section = update_section"
| "update_op Schedule = update_schedule"
| "update_op Venue = update_venue"

fun delete_op :: "table \<Rightarrow> database \<Rightarrow> int \<Rightarrow> pydict outcome" where
  "delete_op Event = delete_event"
| "delete_op Section = delete_section"
| "delete_op Schedule = delete_schedule"
| "delete_op Venue = delete_venue"

fun list_route :: "table \<Rightarrow> database \<Rightarrow> int option \<Rightarrow> int option \<Rightarrow> val outcome" where
  "list_route Event = GET_events"
| "list_route Section = GET_sections"
| "list_route Schedule = GET_schedules"
| "list_route Venue = GET_venues"

fun create_schema :: "table \<Rightarrow> schema" where
  "create_schema Event = EventCreate"
| "create_schema Section = SectionCreate"
| "create_schema Schedule = ScheduleCreate"
| "create_schema Venue = VenueCreate"

fun update_schema :: "table \<Rightarrow> schema" where
  "update_schema Event = EventUpdate"
| "update_schema Section = SectionUpdate"
| "update_schema Schedule = ScheduleUpdate"
| "update_schema Venue = VenueUpdate"

fun not_found :: "table \<Rightarrow> error" where
  "not_found Event = HTTPException 404 ''Event not found''"
| "not_found Section = HTTPException 404 ''Section not found''"
| "not_found Schedule = HTTPException 404 ''Schedule not found''"
| "not_found Venue = HTTPException 404 ''Venue not found''"

fun public_schema :: "table \<Rightarrow> schema" where
  "public_schema Event = EventPublic"
| "public_schema Section = SectionPublic"
| "public_schema Schedule = SchedulePublic"
| "public_schema Venue = VenuePublic"

fun create_route :: "table \<Rightarrow> database \<Rightarrow> pydict \<Rightarrow> val outcome" where
  "create_route Event = POST_events"
| "create_route Section = POST_sections"
| "create_route Schedule = POST_schedules"
| "create_route Venue = POST_venues"

fun read_route :: "table \<Rightarrow> database \<Rightarrow> int \<Rightarrow> val outcome" where
  "read_route Event = GET_event"
| "read_route Section = GET_section"
| "read_route Schedule = GET_schedule"
| "read_route Venue = GET_venue"

fun update_route :: "table \<Rightarrow> database \<Rightarrow> int \<Rightarrow> pydict \<Rightarrow> val outcome" where
  "update_route Event = PATCH_event"
| "update_route Section = PATCH_section"
| "update_route Schedule = PATCH_schedule"
| "update_route Venue = PATCH_venue"

fun delete_route :: "table \<Rightarrow> database \<Rightarrow> int \<Rightarrow> val outcome" where
  "delete_route Event = DELETE_event"
| "delete_route Section = DELETE_section"
| "delete_route Schedule = DELETE_schedule"
| "delete_route Venue = DELETE_venue"

text \<open>
  An instance is presentable when the public model of its entity accepts its
  attributes, and its public view is then what the response carries: the fields of the
  public model with the attributes of those names.  (A Schedule whose \<open>locations\<close> is
  \<open>None\<close> is not presentable: the column is nullable, the field of the public model is
  a \<^verbatim>\<open>Dict\<close>.)
\<close>

definition presentable :: "table \<Rightarrow> pydict \<Rightarrow> bool" where
  "presentable T obj \<longleftrightarrow> validate_fields (model_fields (public_schema T)) (map_of obj) \<noteq> None"

definition public_view :: "table \<Rightarrow> pydict \<Rightarrow> pydict" where
  "public_view T obj = map (\<lambda>f. (fname f, getattr obj (fname f))) (model_fields (public_schema T))"

text \<open>A row can be shown when reading it raises nothing and gives a presentable instance.\<close>

definition showable :: "table \<Rightarrow> pydict \<Rightarrow> bool" where
  "showable T r = (case fetch T r of Inl e \<Rightarrow> False | Inr obj \<Rightarrow> presentable T obj)"

text \<open>
  A payload gives no improper \<open>None\<close> when it gives \<open>None\<close> only to columns that are
  nullable and not of type \<open>HttpUrlType\<close> and whose field in the public model admits
  \<open>None\<close>.
\<close>

definition no_null :: "table \<Rightarrow> pydict \<Rightarrow> bool" where
  "no_null T data =
     list_all
       (\<lambda>c. map_of data (cname c) \<noteq> Some VNone \<or>
             (nullable c \<and> sa_typ c \<noteq> HttpUrlType \<and>
              list_ex (\<lambda>f. fname f = cname c \<and> noneable f) (model_fields (public_schema T))))
       (columns T)"

section \<open>Some requests\<close>

text \<open>
  Request bodies and the databases they lead to from the empty one, used below where a
  property is shown on a concrete run.
\<close>

definition hall_body :: pydict where
  "hall_body = [(''name'', VStr ''Hall'')]"

definition annex_body :: pydict where
  "annex_body =
     [(''name'', VStr ''Annex''), (''url'', VStr ''http://annex.example/''),
      (''capacity'', VInt 300)]"

definition morning_body :: pydict where
  "morning_body = [(''title'', VStr ''Morning''), (''sequence'', VStr ''1''), (''status'', VNone)]"

definition talk_body :: pydict where
  "talk_body =
     [(''start_time'', VTime 9 0 0), (''end_time'', VTime 10 0 0),
      (''event_date'', VDate 2024 5 1), (''location'', VStr ''Room A''),
      (''section_id'', VInt 1)]"

definition talk_public :: val where
  "talk_public =
     VDict
       [(''start_time'', VTime 9 0 0), (''end_time'', VTime 10 0 0),
        (''event_date'', VDate 2024 5 1), (''location'', VStr ''Room A''),
        (''section_id'', VInt 1), (''id'', VInt 1)]"

definition retreat_body :: pydict where
  "retreat_body =
     [(''url'', VStr ''http://retreat.example/''), (''title'', VStr ''Retreat''),
      (''venue'', VStr ''Hall''), (''venue_url'', VStr ''https://hall.example/''),
      (''schedule_datetime'', VStr ''2024-05-01'')]"

definition after_hall :: database where
  "after_hall = snd (POST_venues create_db_and_tables hall_body)"

definition after_morning :: database where
  "after_morning = snd (POST_sections create_db_and_tables morning_body)"

definition after_talk :: database where
  "after_talk = snd (POST_events after_morning talk_body)"

definition after_two_mornings :: database where
  "after_two_mornings = snd (POST_sections after_talk morning_body)"

definition after_retreat :: database where
  "after_retreat = snd (POST_schedules create_db_and_tables retreat_body)"


definition renumber :: model where
  "renumber =
     \<lparr>attrs = [(''id'', VInt 5), (''title'', VNone), (''sequence'', VNone), (''status'', VNone)],
      fields_set = [''id'']\<rparr>"

definition relocate :: model where
  "relocate =
     \<lparr>attrs =
        [(''start_time'', VNone), (''end_time'', VNone), (''event_date'', VNone),
         (''location'', VStr ''Room B'')],
      fields_set = [''location'']\<rparr>"

section \<open>Unfolding the model classes\<close>

lemmas field_defs = required_def required_optional_def optional_def with_default_def

lemmas schema_defs =
  ScheduleBase_def ScheduleCreate_def SchedulePublic_def ScheduleUpdate_def
  SectionBase_def SectionCreate_def SectionPublic_def SectionUpdate_def
  EventBase_def EventCreate_def EventPublic_def EventUpdate_def
  VenueBase_def VenueCreate_def VenuePublic_def VenueUpdate_def

section \<open>Creating: unknown fields and the optional status\<close>

text \<open>
  The three model classes with \<^verbatim>\<open>extra='forbid'\<close> refuse a body with a key that is no
  field, before the handler runs: nothing is stored.
\<close>

lemma event_create_rejects_extra:
  assumes "has_extra EventCreate body"
  shows "POST_events db body = (Inl RequestValidationError, db)"
  using assms by (simp add: POST_events_def validate_body_def EventCreate_def)

lemma section_create_rejects_extra:
  assumes "has_extra SectionCreate body"
  shows "POST_sections db body = (Inl RequestValidationError, db)"
  using assms by (simp add: POST_sections_def validate_body_def SectionCreate_def)

lemma schedule_create_rejects_extra:
  assumes "has_extra ScheduleCreate body"
  shows "POST_schedules db body = (Inl RequestValidationError, db)"
  using assms by (simp add: POST_schedules_def validate_body_def ScheduleCreate_def)

text \<open>
  C1.  \<^verbatim>\<open>VenueBase\<close> sets no \<^verbatim>\<open>model_config\<close>, so \<^verbatim>\<open>VenueCreate\<close> ignores a key that
  is no field: the body \<open>annex_body\<close> carries the unknown key \<^verbatim>\<open>capacity\<close>, the
  request is accepted, the handler runs and the row is stored.
\<close>

theorem venue_create_accepts_unknown_field:
  "has_extra VenueCreate annex_body \<and>
   POST_venues create_db_and_tables annex_body =
     (Inr (VDict
        [(''name'', VStr ''Annex''), (''Tel'', VNone), (''Address'', VNone),
         (''Mail'', VNone), (''url'', VUrl ''http://annex.example/''),
         (''Fax'', VNone), (''Contact'', VNone), (''id'', VInt 1)]),
      \<lparr>event_rows = [], section_rows = [], schedule_rows = [],
       venue_rows =
         [[(''name'', VStr ''Annex''), (''Tel'', VNone), (''Address'', VNone),
           (''Mail'', VNone), (''url'', VStr ''http://annex.example/''),
           (''Fax'', VNone), (''Contact'', VNone), (''id'', VInt 1)]]\<rparr>)"
  by code_simp

text \<open>
  C9.  \<^verbatim>\<open>status: Optional[str]\<close> has no default, so the field is required: a body with
  \<open>title\<close> and \<open>sequence\<close> only is refused before the handler runs, whatever the
  database.  (A body that gives \<^verbatim>\<open>"status": null\<close> is accepted, see \<open>after_morning\<close>.)
\<close>

theorem section_create_without_status_rejected:
  "POST_sections db [(''title'', VStr title), (''sequence'', VStr sequence)] =
     (Inl RequestValidationError, db)"
  by (simp add: POST_sections_def validate_body_def has_extra_def validate_field_def
      coerce_def schema_defs field_defs)

lemma section_create_with_null_status:
  "POST_sections create_db_and_tables morning_body =
     (Inr (VDict
        [(''title'', VStr ''Morning''), (''sequence'', VStr ''1''), (''status'', VNone),
         (''id'', VInt 1)]),
      \<lparr>event_rows = [],
       section_rows =
         [[(''title'', VStr ''Morning''), (''sequence'', VStr ''1''), (''status'', VNone),
           (''id'', VInt 1), (''schedule_id'', VNone)]],
       schedule_rows = [], venue_rows = []\<rparr>)"
  by code_simp

section \<open>The handlers of an entity, unfolded\<close>

lemma read_op_unfold:
  "read_op T db pk =
     (case session_get db T pk of
        Inl e \<Rightarrow> (Inl e, db)
      | Inr None \<Rightarrow> (Inl (not_found T), db)
      | Inr (Some obj) \<Rightarrow> (Inr obj, db))"
  by (cases T; hypsubst;
      simp add: read_event_def read_section_def read_schedule_def read_venue_def
        split: sum.split option.split)

lemma delete_op_unfold:
  "delete_op T db pk =
     (case session_get db T pk of
        Inl e \<Rightarrow> (Inl e, db)
      | Inr None \<Rightarrow> (Inl (not_found T), db)
      | Inr (Some obj) \<Rightarrow> (Inr [(''ok'', VBool True)], flush_delete db T pk))"
  by (cases T; hypsubst;
      simp add: delete_event_def delete_section_def delete_schedule_def delete_venue_def
        split: sum.split option.split)

lemma update_op_unfold:
  "update_op T db pk m =
     (case session_get db T pk of
        Inl e \<Rightarrow> (Inl e, db)
      | Inr None \<Rightarrow> (Inl (not_found T), db)
      | Inr (Some loaded) \<Rightarrow>
          (let data = model_dump_exclude_unset (update_schema T) m;
               obj = fold (\<lambda>(key, value) obj. setattr obj key value) data loaded
           in
             case flush_update db T pk loaded obj of
               Inl e \<Rightarrow> (Inl e, db)
             | Inr db' \<Rightarrow>
                 (case session_refresh db' T obj of
                    Inl e \<Rightarrow> (Inl e, db')
                  | Inr obj' \<Rightarrow> (Inr obj', db'))))"
  by (cases T; hypsubst;
      simp add: update_event_def update_section_def update_schedule_def update_venue_def
        split: sum.split option.split)

lemma list_op_unfold:
  "list_op T db offset limit =
     (case select_offset_limit db T offset limit of
        Inl e \<Rightarrow> (Inl e, db)
      | Inr objs \<Rightarrow> (Inr objs, db))"
  by (cases T; hypsubst;
      simp add: read_events_def read_sections_def read_schedules_def read_venues_def
        split: sum.split option.split)

lemma respond_error: "respond T rm (Inl e, db) = (Inl e, db)"
  by (simp add: respond_def)

lemma respond_dict_error: "respond_dict (Inl e, db) = (Inl e, db)"
  by (simp add: respond_dict_def)

lemma read_route_error:
  assumes "read_op T db pk = (Inl e, db')"
  shows "read_route T db pk = (Inl e, db')"
  using assms
  by (cases T)
    (simp_all add: GET_event_def GET_section_def GET_schedule_def GET_venue_def respond_error)

lemma update_route_unfold:
  "update_route T db pk body =
     (case validate_body (update_schema T) body of
        Inl e \<Rightarrow> (Inl e, db)
      | Inr m \<Rightarrow> respond T (plain (public_schema T)) (update_op T db pk m))"
  by (cases T; hypsubst;
      simp add: PATCH_event_def PATCH_section_def PATCH_schedule_def PATCH_venue_def
        split: sum.split)

lemma create_route_unfold:
  "create_route T db body =
     (case validate_body (create_schema T) body of
        Inl e \<Rightarrow> (Inl e, db)
      | Inr m \<Rightarrow> respond T (plain (public_schema T)) (create_op T db m))"
  by (cases T; hypsubst;
      simp add: POST_events_def POST_sections_def POST_schedules_def POST_venues_def
        split: sum.split)

lemma delete_route_unfold: "delete_route T db pk = respond_dict (delete_op T db pk)"
  by (cases T)
    (simp_all add: DELETE_event_def DELETE_section_def DELETE_schedule_def DELETE_venue_def)

lemma list_route_unfold:
  "list_route T db offset limit =
     (case query_limit limit of
        Inl e \<Rightarrow> (Inl e, db)
      | Inr limit' \<Rightarrow>
          respond_list T (plain (public_schema T)) (list_op T db (query_offset offset) limit'))"
  by (cases T; hypsubst;
      simp add: GET_events_def GET_sections_def GET_schedules_def GET_venues_def
        split: sum.split)

lemma session_get_missing:
  assumes "int64 pk" and "pk \<notin> row_id ` set (rows T db)"
  shows "session_get db T pk = Inr None"
proof -
  have "find (\<lambda>r. row_id r = pk) (rows T db) = None"
    using assms(2) by (auto simp: find_None_iff)
  then show ?thesis using assms(1) by (simp add: session_get_def)
qed

lemma session_get_overflow: "\<not> int64 pk \<Longrightarrow> session_get db T pk = Inl OverflowError"
  by (simp add: session_get_def)

lemma session_get_int64: "session_get db T pk = Inr x \<Longrightarrow> int64 pk"
  by (simp add: session_get_def split: if_splits)

section \<open>Attributes, rows and their columns\<close>

lemma getattr_setattr:
  "getattr (setattr r k v) k' = (if k' = k then v else getattr r k')"
  by (simp add: getattr_def setattr_def update_conv')

lemma row_id_setattr:
  "k \<noteq> ''id'' \<Longrightarrow> row_id (setattr r k v) = row_id r"
  by (simp add: row_id_def getattr_setattr)

lemma rows_put_rows:
  "rows C (put_rows T rs db) = (if C = T then rs else rows C db)"
  by (cases T; cases C; simp)

lemma distinct_cnames: "distinct (map cname (columns T))"
  by (cases T) (simp_all add: col_def)

lemma id_column: "\<exists>c \<in> set (columns T). cname c = ''id'' \<and> sa_typ c = Integer"
  by (cases T) (simp_all add: col_def)

lemma distinct_update_fields: "distinct (map fname (model_fields (update_schema T)))"
  by (cases T) (simp_all add: schema_defs field_defs)

lemma update_fields_are_columns:
  "set (map fname (model_fields (update_schema T))) \<subseteq> cname ` set (columns T)"
  by (cases T) (simp_all add: schema_defs field_defs col_def)

lemma id_not_updatable:
  "T \<noteq> Section \<Longrightarrow> ''id'' \<notin> set (map fname (model_fields (update_schema T)))"
  by (cases T) (simp_all add: schema_defs field_defs)

lemma dump_keys:
  "map fst (model_dump_exclude_unset cls m) =
     filter (\<lambda>k. k \<in> set (fields_set m)) (map fname (model_fields cls))"
  by (simp add: model_dump_exclude_unset_def comp_def)

lemma distinct_dump:
  "distinct (map fst (model_dump_exclude_unset (update_schema T) m))"
  by (simp add: dump_keys distinct_update_fields)

lemma dump_keys_are_columns:
  "fst ` set (model_dump_exclude_unset (update_schema T) m) \<subseteq> cname ` set (columns T)"
proof -
  have "set (map fst (model_dump_exclude_unset (update_schema T) m))
          \<subseteq> set (map fname (model_fields (update_schema T)))"
    unfolding dump_keys by auto
  then show ?thesis using update_fields_are_columns [of T] by auto
qed

lemma getattr_fold_setattr_other:
  "k \<notin> fst ` set data \<Longrightarrow>
   getattr (fold (\<lambda>(key, value) obj. setattr obj key value) data obj) k = getattr obj k"
  by (induction data arbitrary: obj) (auto simp: getattr_setattr)

lemma getattr_fold_setattr:
  "distinct (map fst data) \<Longrightarrow>
   getattr (fold (\<lambda>(key, value) obj. setattr obj key value) data obj) k =
     (case map_of data k of Some v \<Rightarrow> v | None \<Rightarrow> getattr obj k)"
proof (induction data arbitrary: obj)
  case Nil
  then show ?case by simp
next
  case (Cons p data)
  obtain k' v' where p: "p = (k', v')" by (cases p)
  show ?case
  proof (cases "k = k'")
    case True
    then have "map_of data k = None" using Cons.prems p by (simp add: map_of_eq_None_iff)
    then show ?thesis using Cons p True by (simp add: getattr_setattr)
  next
    case False
    then show ?thesis using Cons p by (simp add: getattr_setattr split: option.split)
  qed
qed

lemma fetch_columns_getattr:
  assumes "fetch_columns cs r = Inr obj" and "distinct (map cname cs)" and "c \<in> set cs"
  shows "result_processor (sa_typ c) (getattr r (cname c)) = Inr (getattr obj (cname c))"
  using assms
proof (induction cs arbitrary: obj)
  case Nil
  then show ?case by simp
next
  case (Cons c' cs)
  from Cons.prems(1) obtain v obj' where obj: "obj = (cname c', v) # obj'"
    and hd: "result_processor (sa_typ c') (getattr r (cname c')) = Inr v"
    and tl: "fetch_columns cs r = Inr obj'"
    by (auto split: sum.splits)
  show ?case
  proof (cases "c = c'")
    case True
    then show ?thesis using obj hd by (simp add: getattr_def)
  next
    case False
    then have c: "c \<in> set cs" using Cons.prems(3) by simp
    then have "cname c \<in> set (map cname cs)" by simp
    moreover have "cname c' \<notin> set (map cname cs)" using Cons.prems(2) by simp
    ultimately have "cname c \<noteq> cname c'" by metis
    then have "getattr obj (cname c) = getattr obj' (cname c)"
      using obj by (simp add: getattr_def)
    then show ?thesis using Cons.IH [OF tl _ c] Cons.prems(2) by simp
  qed
qed

lemma fetch_columns_keys:
  "fetch_columns cs r = Inr obj \<Longrightarrow> map fst obj = map cname cs"
  by (induction cs arbitrary: obj) (auto split: sum.splits)

lemma fetch_columns_intro:
  assumes "\<And>c. c \<in> set cs \<Longrightarrow>
             result_processor (sa_typ c) (getattr r (cname c)) = Inr (g (cname c))"
  shows "fetch_columns cs r = Inr (map (\<lambda>c. (cname c, g (cname c))) cs)"
  using assms by (induction cs) simp_all

lemma getattr_outside:
  "k \<notin> fst ` set obj \<Longrightarrow> getattr obj k = VNone"
  by (simp add: getattr_def map_of_eq_None_iff [THEN iffD2])

lemma getattr_columns_map:
  assumes "distinct (map cname cs)"
  shows "getattr (map (\<lambda>c. (cname c, g (cname c))) cs) k =
           (if k \<in> cname ` set cs then g k else VNone)"
  using assms by (induction cs) (auto simp: getattr_def)

lemma HttpUrl_fixed: "HttpUrl v = Inr v \<Longrightarrow> HttpUrl (VStr (py_str v)) = Inr v"
  by (cases v) (auto split: if_splits)

lemma result_bind:
  assumes "t = HttpUrlType \<Longrightarrow> HttpUrl v = Inr v"
  shows "result_processor t (bind_processor t v) = Inr v"
proof (cases "t = HttpUrlType")
  case True
  then have "HttpUrl (VStr (py_str v)) = Inr v" using assms HttpUrl_fixed by blast
  then show ?thesis
    using True
    by (simp add: result_processor_def bind_processor_def process_result_value_def
        process_bind_param_def del: HttpUrl.simps)
next
  case False
  then show ?thesis by (simp add: result_processor_def bind_processor_def)
qed

lemma find_map_same:
  assumes "\<And>x. P (f x) = P x"
  shows "find P (map f xs) = map_option f (find P xs)"
  using assms by (induction xs) simp_all

lemma find_insort_key:
  assumes "P x" and "\<And>y. y \<in> set xs \<Longrightarrow> \<not> P y"
  shows "find P (insort_key f x xs) = Some x"
  using assms by (induction xs) simp_all

lemma map_of_filtered_columns:
  assumes "distinct (map cname cs)" and "c \<in> set cs"
  shows "map_of (map (\<lambda>c. (cname c, g c)) (filter Q cs)) (cname c) =
           (if Q c then Some (g c) else None)"
  using assms
proof (induction cs)
  case Nil
  then show ?case by simp
next
  case (Cons c' cs)
  show ?case
  proof (cases "c = c'")
    case True
    have "cname c' \<notin> cname ` set (filter Q cs)" using Cons.prems(1) by auto
    then have "map_of (map (\<lambda>c. (cname c, g c)) (filter Q cs)) (cname c') = None"
      by (simp add: map_of_eq_None_iff image_image)
    then show ?thesis using True by simp
  next
    case False
    then have c: "c \<in> set cs" using Cons.prems by simp
    then have "cname c \<in> set (map cname cs)" by simp
    moreover have "cname c' \<notin> set (map cname cs)" using Cons.prems(1) by simp
    ultimately have "cname c \<noteq> cname c'" by metis
    then show ?thesis using Cons c by simp
  qed
qed

lemma validate_fields_keys:
  "validate_fields fs src = Some a \<Longrightarrow> map fst a = map fname fs"
  by (induction fs arbitrary: a) (auto split: option.splits)

lemma HttpUrl_idem: "HttpUrl w = Inr v \<Longrightarrow> HttpUrl v = Inr v"
  by (cases w) (auto split: if_splits)

lemma validate_fields_attr:
  assumes "validate_fields fs src = Some a" and "distinct (map fname fs)" and "f \<in> set fs"
  shows "validate_field f (src (fname f)) = Some (getattr a (fname f))"
  using assms
proof (induction fs arbitrary: a)
  case Nil
  then show ?case by simp
next
  case (Cons f' fs)
  from Cons.prems(1) obtain v a' where a: "a = (fname f', v) # a'"
    and hd: "validate_field f' (src (fname f')) = Some v"
    and tl: "validate_fields fs src = Some a'"
    by (auto split: option.splits)
  show ?case
  proof (cases "f = f'")
    case True
    then show ?thesis using a hd by (simp add: getattr_def)
  next
    case False
    then have f: "f \<in> set fs" using Cons.prems(3) by simp
    then have "fname f \<in> set (map fname fs)" by simp
    moreover have "fname f' \<notin> set (map fname fs)" using Cons.prems(2) by simp
    ultimately have "fname f \<noteq> fname f'" by metis
    then have "getattr a (fname f) = getattr a' (fname f)" using a by (simp add: getattr_def)
    then show ?thesis using Cons.IH [OF tl _ f] Cons.prems(2) by simp
  qed
qed

section \<open>What a response carries\<close>

text \<open>
  The response model of the create, list and update routes is the public model of the
  entity.  For an instance that the session read from a row and that is presentable
  the response is its public view, attribute by attribute.
\<close>

lemma validate_fields_intro:
  assumes "\<And>f. f \<in> set fs \<Longrightarrow> validate_field f (src (fname f)) = Some (g (fname f))"
  shows "validate_fields fs src = Some (map (\<lambda>f. (fname f, g (fname f))) fs)"
  using assms by (induction fs) simp_all

lemma coerce_same:
  assumes "coerce t v = Some x" and "t = T_HttpUrl \<Longrightarrow> HttpUrl v = Inr v"
  shows "x = v"
  using assms by (cases t; cases v) (auto simp: coerce_def split: if_splits)

lemma coerce_idem: "coerce t w = Some x \<Longrightarrow> coerce t x = Some x"
  by (cases t; cases w) (auto simp: coerce_def split: if_splits)

lemma distinct_public_fields: "distinct (map fname (model_fields (public_schema T)))"
  by (cases T) (simp_all add: schema_defs field_defs)

lemma public_fields_are_columns:
  "set (map fname (model_fields (public_schema T))) \<subseteq> cname ` set (columns T)"
  by (cases T) (simp_all add: schema_defs field_defs col_def)

lemma url_field_has_url_column:
  assumes "f \<in> set (model_fields (public_schema T))" and "ftyp f = T_HttpUrl"
    and "c \<in> set (columns T)" and "cname c = fname f"
  shows "sa_typ c = HttpUrlType"
  using assms by (cases T) (auto simp: schema_defs field_defs col_def)

lemma fetched_url:
  assumes "fetch T r = Inr obj" and "c \<in> set (columns T)" and "sa_typ c = HttpUrlType"
  shows "HttpUrl (getattr obj (cname c)) = Inr (getattr obj (cname c))"
proof -
  have "result_processor (sa_typ c) (getattr r (cname c)) = Inr (getattr obj (cname c))"
    using assms(1) distinct_cnames assms(2) unfolding fetch_def by (rule fetch_columns_getattr)
  then have "HttpUrl (getattr r (cname c)) = Inr (getattr obj (cname c))"
    using assms(3) by (simp add: result_processor_def process_result_value_def)
  then show ?thesis by (rule HttpUrl_idem)
qed

lemma fetched_attr:
  assumes "fetch T r = Inr obj" and "k \<in> cname ` set (columns T)"
  shows "map_of obj k = Some (getattr obj k)"
proof -
  have "map fst obj = map cname (columns T)"
    using assms(1) unfolding fetch_def by (rule fetch_columns_keys)
  then have "fst ` set obj = cname ` set (columns T)" by (metis set_map)
  then have "k \<in> fst ` set obj" using assms(2) by simp
  then obtain v where "map_of obj k = Some v"
    by (cases "map_of obj k") (auto simp: map_of_eq_None_iff)
  then show ?thesis by (simp add: getattr_def)
qed

lemma presentable_field:
  assumes ld: "fetch T r = Inr obj" and pres: "presentable T obj"
    and f: "f \<in> set (model_fields (public_schema T))"
  shows "validate_field f (Some (getattr obj (fname f))) = Some (getattr obj (fname f))"
proof -
  let ?v = "getattr obj (fname f)"
  from pres obtain a where a: "validate_fields (model_fields (public_schema T)) (map_of obj) = Some a"
    by (auto simp: presentable_def)
  have "fname f \<in> set (map fname (model_fields (public_schema T)))" using f by simp
  then have col: "fname f \<in> cname ` set (columns T)"
    using public_fields_are_columns [of T] by blast
  then obtain c where c: "c \<in> set (columns T)" "cname c = fname f" by auto
  have "validate_field f (map_of obj (fname f)) = Some (getattr a (fname f))"
    using a distinct_public_fields f by (rule validate_fields_attr)
  then have val: "validate_field f (Some ?v) = Some (getattr a (fname f))"
    using fetched_attr [OF ld col] by simp
  show ?thesis
  proof (cases "?v = VNone")
    case True
    then show ?thesis using val by (auto simp: validate_field_def split: if_splits)
  next
    case False
    then have co: "coerce (ftyp f) ?v = Some (getattr a (fname f))"
      using val by (simp add: validate_field_def)
    have "HttpUrl ?v = Inr ?v" if "ftyp f = T_HttpUrl"
      using fetched_url [OF ld c(1) url_field_has_url_column [OF f that c]] c(2) by simp
    with co have "getattr a (fname f) = ?v" by (rule coerce_same)
    then show ?thesis using val by simp
  qed
qed

lemma response_of_fields:
  assumes ld: "fetch T r = Inr obj"
    and ok: "\<And>f. f \<in> set (model_fields (public_schema T)) \<Longrightarrow>
               validate_field f (Some (getattr obj (fname f))) = Some (getattr obj (fname f))"
  shows "validate_fields (model_fields (public_schema T)) (map_of obj) = Some (public_view T obj)"
  unfolding public_view_def
proof (rule validate_fields_intro)
  fix f assume f: "f \<in> set (model_fields (public_schema T))"
  then have "fname f \<in> set (map fname (model_fields (public_schema T)))" by simp
  then have "fname f \<in> cname ` set (columns T)"
    using public_fields_are_columns [of T] by blast
  then have "map_of obj (fname f) = Some (getattr obj (fname f))"
    using ld by (rule fetched_attr [rotated])
  then show "validate_field f (map_of obj (fname f)) = Some (getattr obj (fname f))"
    using ok [OF f] by simp
qed

lemma response_of_presentable:
  assumes "fetch T r = Inr obj" and "presentable T obj"
  shows "serialize_response db T (plain (public_schema T)) obj = Inr (VDict (public_view T obj))"
  using response_of_fields [OF assms(1) presentable_field [OF assms]]
  by (simp add: serialize_response_def plain_def)

lemma session_get_SomeD:
  assumes "session_get db T pk = Inr (Some obj)"
  obtains r where "find (\<lambda>r. row_id r = pk) (rows T db) = Some r" and "fetch T r = Inr obj"
    and "int64 pk"
  using assms by (auto simp: session_get_def split: option.splits sum.splits if_splits)

section \<open>Identifiers that are not in the store\<close>

lemma missing_identifier_handlers:
  assumes "int64 pk" and "pk \<notin> row_id ` set (rows T db)"
  shows "read_op T db pk = (Inl (not_found T), db)"
    and "update_op T db pk m = (Inl (not_found T), db)"
    and "delete_op T db pk = (Inl (not_found T), db)"
  using session_get_missing [OF assms]
  by (simp_all add: read_op_unfold update_op_unfold delete_op_unfold)

lemma overflowing_identifier_handlers:
  assumes "\<not> int64 pk"
  shows "read_op T db pk = (Inl OverflowError, db)"
    and "update_op T db pk m = (Inl OverflowError, db)"
    and "delete_op T db pk = (Inl OverflowError, db)"
  using session_get_overflow [OF assms]
  by (simp_all add: read_op_unfold update_op_unfold delete_op_unfold)

text \<open>
  The claim C4 as it stands fails for an identifier that SQLite cannot hold: no row has
  the key \<open>2\<^sup>6\<^sup>3\<close>, and \<^verbatim>\<open>GET /events/9223372036854775808\<close> is not answered with
  404.  \<^verbatim>\<open>session.get\<close> raises \<open>OverflowError\<close> while it binds the key, before the
  handler can test for \<open>None\<close>, and nobody catches it.
\<close>

theorem identifier_beyond_64_bits_is_not_answered_404:
  "(2 ^ 63 :: int) \<notin> row_id ` set (rows Event after_talk) \<and>
   GET_event after_talk (2 ^ 63) = (Inl OverflowError, after_talk) \<and>
   status_code OverflowError = 500"
  by code_simp

text \<open>
  C4, amended.  For every entity and every identifier within the signed 64-bit range
  that no row of its table has, get-by-id, update (with any payload that passes
  validation) and delete raise \<^verbatim>\<open>HTTPException(status_code=404)\<close> with the entity's
  message: so the handlers, so the requests, and the database after the request is the
  database before it.  For an identifier outside that range the same three requests
  end in \<open>OverflowError\<close>, an error nobody catches (500), whether a row has the key or
  not, and again the database is as it was.
\<close>

theorem missing_identifier_is_not_found:
  "(int64 pk \<and> pk \<notin> row_id ` set (rows T db) \<longrightarrow>
      read_op T db pk = (Inl (not_found T), db) \<and>
      update_op T db pk m = (Inl (not_found T), db) \<and>
      delete_op T db pk = (Inl (not_found T), db) \<and>
      read_route T db pk = (Inl (not_found T), db) \<and>
      (validate_body (update_schema T) body = Inr m \<longrightarrow>
         update_route T db pk body = (Inl (not_found T), db)) \<and>
      delete_route T db pk = (Inl (not_found T), db) \<and>
      status_code (not_found T) = 404) \<and>
   (\<not> int64 big \<longrightarrow>
      read_route T db big = (Inl OverflowError, db) \<and>
      (validate_body (update_schema T) body = Inr m \<longrightarrow>
         update_route T db big body = (Inl OverflowError, db)) \<and>
      delete_route T db big = (Inl OverflowError, db) \<and>
      status_code OverflowError = 500)"
proof (intro conjI impI)
  assume a: "int64 pk \<and> pk \<notin> row_id ` set (rows T db)"
  then have r: "int64 pk" and missing: "pk \<notin> row_id ` set (rows T db)" by blast+
  note h = missing_identifier_handlers [OF r missing]
  show "read_op T db pk = (Inl (not_found T), db)" by (rule h)
  show "update_op T db pk m = (Inl (not_found T), db)" by (rule h)
  show "delete_op T db pk = (Inl (not_found T), db)" by (rule h)
  show "read_route T db pk = (Inl (not_found T), db)" by (rule read_route_error) (rule h)
  show "delete_route T db pk = (Inl (not_found T), db)"
    by (simp add: delete_route_unfold h respond_dict_error)
  show "status_code (not_found T) = 404" by (cases T) simp_all
  show "update_route T db pk body = (Inl (not_found T), db)"
    if "validate_body (update_schema T) body = Inr m"
    using that by (simp add: update_route_unfold h respond_error)
next
  assume big: "\<not> int64 big"
  note h = overflowing_identifier_handlers [OF big]
  show "read_route T db big = (Inl OverflowError, db)" by (rule read_route_error) (rule h)
  show "delete_route T db big = (Inl OverflowError, db)"
    by (simp add: delete_route_unfold h respond_dict_error)
  show "status_code OverflowError = 500" by simp
  show "update_route T db big body = (Inl OverflowError, db)"
    if "validate_body (update_schema T) body = Inr m"
    using that by (simp add: update_route_unfold h respond_error)
qed

theorem missing_identifier_is_not_found_witness:
  "int64 7 \<and> (7::int) \<notin> row_id ` set (rows Section after_talk) \<and> \<not> int64 (2 ^ 63) \<and>
   validate_body SectionUpdate [(''title'', VStr ''Noon'')] =
     Inr \<lparr>attrs = [(''id'', VNone), (''title'', VStr ''Noon''), (''sequence'', VNone),
                   (''status'', VNone)],
          fields_set = [''title'']\<rparr> \<and>
   GET_section after_talk 7 = (Inl (HTTPException 404 ''Section not found''), after_talk) \<and>
   PATCH_section after_talk 7 [(''title'', VStr ''Noon'')] =
     (Inl (HTTPException 404 ''Section not found''), after_talk) \<and>
   DELETE_section after_talk 7 = (Inl (HTTPException 404 ''Section not found''), after_talk) \<and>
   GET_section after_talk (2 ^ 63) = (Inl OverflowError, after_talk) \<and>
   PATCH_section after_talk (2 ^ 63) [(''title'', VStr ''Noon'')] =
     (Inl OverflowError, after_talk) \<and>
   DELETE_section after_talk (2 ^ 63) = (Inl OverflowError, after_talk)"
proof -
  let ?body = "[(''title'', VStr ''Noon'')]"
  let ?m = "\<lparr>attrs = [(''id'', VNone), (''title'', VStr ''Noon''), (''sequence'', VNone),
                   (''status'', VNone)],
             fields_set = [''title'']\<rparr>"
  have h1: "int64 7" by code_simp
  have h2: "(7::int) \<notin> row_id ` set (rows Section after_talk)" by code_simp
  have h3: "\<not> int64 (2 ^ 63)" by code_simp
  have h4: "validate_body (update_schema Section) ?body = Inr ?m" by code_simp
  show ?thesis
    using h1 h2 h3 h4
      missing_identifier_is_not_found
        [where T = Section and db = after_talk and pk = 7 and big = "2 ^ 63" and m = ?m
          and body = ?body]
    by simp
qed

section \<open>Fetching a record with its children\<close>

text \<open>
  The response model of \<^verbatim>\<open>GET /sections/{section_id}\<close> names its nested field
  \<^verbatim>\<open>eventes\<close>, while the relationship of \<^verbatim>\<open>Section\<close> is \<^verbatim>\<open>events\<close>: the field finds
  no attribute and keeps its default, the empty list.
\<close>

lemma section_has_no_attribute_eventes:
  "orm_getattr db Section obj ''eventes'' = Inr None"
  by (simp add: orm_getattr_def col_def)

text \<open>
  So whatever the database and the identifier, a Section that is fetched comes with an
  empty \<^verbatim>\<open>eventes\<close>.
\<close>

lemma section_response_lists_no_events:
  assumes "GET_section db pk = (Inr (VDict resp), db')"
  shows "map_of resp ''eventes'' = Some (VList [])"
proof -
  from assms obtain obj where
    ser: "serialize_response db' Section SectionPublicWithEventes obj = Inr (VDict resp)"
    by (auto simp: GET_section_def respond_def split: prod.splits sum.splits)
  then obtain plain_part where
    plain: "validate_fields (model_fields SectionPublic) (map_of obj) = Some plain_part"
    and resp: "resp = plain_part @ [(''eventes'', VList [])]"
    by (auto simp: serialize_response_def SectionPublicWithEventes_def
        section_has_no_attribute_eventes validate_nested_def split: option.splits sum.splits)
  have "map fst plain_part = [''title'', ''sequence'', ''status'', ''id'']"
    using validate_fields_keys [OF plain] by (simp add: schema_defs field_defs)
  then have "set (map fst plain_part) = set [''title'', ''sequence'', ''status'', ''id'']"
    by simp
  then have "fst ` set plain_part = {''title'', ''sequence'', ''status'', ''id''}"
    by (simp only: set_map list.set)
  then have "''eventes'' \<notin> fst ` set plain_part" by simp
  then have "map_of plain_part ''eventes'' = None" by (simp add: map_of_eq_None_iff)
  then show ?thesis using resp by (simp add: map_add_def)
qed

text \<open>
  C2.  After \<^verbatim>\<open>POST /sections/\<close> and a \<^verbatim>\<open>POST /events/\<close> with \<^verbatim>\<open>section_id\<close> 1, the
  event row references section 1, and fetching section 1 answers with an empty
  \<^verbatim>\<open>eventes\<close>: the event is not listed.
\<close>

theorem section_fetch_omits_its_events:
  "event_rows after_talk =
     [[(''start_time'', VTime 9 0 0), (''end_time'', VTime 10 0 0),
       (''event_date'', VDate 2024 5 1), (''location'', VStr ''Room A''),
       (''section_id'', VInt 1), (''id'', VInt 1)]] \<and>
   GET_section after_talk 1 =
     (Inr (VDict
        [(''title'', VStr ''Morning''), (''sequence'', VStr ''1''), (''status'', VNone),
         (''id'', VInt 1), (''eventes'', VList [])]),
      after_talk)"
  by code_simp

text \<open>
  The other direction of the same relationship is read under its own name: the event
  comes with its section.
\<close>

lemma event_fetch_includes_its_section:
  "GET_event after_talk 1 =
     (Inr (VDict
        [(''start_time'', VTime 9 0 0), (''end_time'', VTime 10 0 0),
         (''event_date'', VDate 2024 5 1), (''location'', VStr ''Room A''),
         (''section_id'', VInt 1), (''id'', VInt 1),
         (''section'',
          VDict
            [(''title'', VStr ''Morning''), (''sequence'', VStr ''1''), (''status'', VNone),
             (''id'', VInt 1)])]),
      after_talk)"
  by code_simp

section \<open>Records without a URL\<close>

text \<open>
  C6.  \<^verbatim>\<open>POST /venues/\<close> with the valid body \<^verbatim>\<open>{"name": "Hall"}\<close>: the \<open>url\<close> of the
  new venue is \<open>None\<close>, \<^verbatim>\<open>process_bind_param\<close> stores \<^verbatim>\<open>str(None)\<close>, the row is
  committed, and \<^verbatim>\<open>session.refresh\<close> raises when \<^verbatim>\<open>process_result_value\<close> calls
  \<^verbatim>\<open>HttpUrl(url='None')\<close>.  The create answers with an error, and so does the fetch of
  the row it stored.
\<close>

theorem venue_without_url_cannot_be_read:
  "POST_venues create_db_and_tables hall_body =
     (Inl ValidationError,
      \<lparr>event_rows = [], section_rows = [], schedule_rows = [],
       venue_rows =
         [[(''name'', VStr ''Hall''), (''Tel'', VNone), (''Address'', VNone),
           (''Mail'', VNone), (''url'', VStr ''None''), (''Fax'', VNone),
           (''Contact'', VNone), (''id'', VInt 1)]]\<rparr>) \<and>
   GET_venue after_hall 1 = (Inl ValidationError, after_hall)"
  by code_simp

text \<open>
  C7.  The row of that venue exists, and \<^verbatim>\<open>DELETE /venues/1\<close> does not delete it:
  \<^verbatim>\<open>session.get\<close> raises while loading the row, and the row stays.
\<close>

theorem venue_without_url_cannot_be_deleted:
  "map row_id (venue_rows after_hall) = [1] \<and>
   DELETE_venue after_hall 1 = (Inl ValidationError, after_hall)"
  by code_simp

section \<open>Listing\<close>

lemma showable_page:
  assumes "list_all (showable T) rs"
  shows "\<exists>objs. fetch_all T rs = Inr objs \<and> map Inr objs = map (fetch T) rs \<and>
           serialize_list db T (plain (public_schema T)) objs =
             Inr (map (\<lambda>obj. VDict (public_view T obj)) objs)"
  using assms
proof (induction rs)
  case Nil
  then show ?case by simp
next
  case (Cons r rs)
  then obtain objs where objs: "fetch_all T rs = Inr objs" "map Inr objs = map (fetch T) rs"
    "serialize_list db T (plain (public_schema T)) objs =
       Inr (map (\<lambda>obj. VDict (public_view T obj)) objs)"
    by auto
  from Cons.prems obtain obj where obj: "fetch T r = Inr obj" "presentable T obj"
    by (auto simp: showable_def split: sum.splits)
  have "serialize_response db T (plain (public_schema T)) obj = Inr (VDict (public_view T obj))"
    using obj by (rule response_of_presentable)
  then show ?case using objs obj(1) by simp
qed

lemma limit_above_100_rejected:
  assumes "100 < n"
  shows "list_route T db q (Some n) = (Inl RequestValidationError, db)"
  using assms by (simp add: list_route_unfold query_limit_def)

lemma offset_or_limit_beyond_64_bits:
  assumes "limit \<le> 100" and "\<not> int64 offset \<or> \<not> int64 limit"
  shows "list_route T db (Some offset) (Some limit) = (Inl OverflowError, db)"
  using assms
  by (auto simp: list_route_unfold query_limit_def query_offset_def list_op_unfold
      select_offset_limit_def respond_list_def)

lemma list_page:
  assumes lim: "limit \<le> 100" and off: "int64 offset" and lim64: "int64 limit"
    and ok: "list_all (showable T) (sql_limit limit (sql_offset offset (rows T db)))"
  shows "\<exists>objs. map Inr objs = map (fetch T) (sql_limit limit (sql_offset offset (rows T db))) \<and>
           list_op T db offset limit = (Inr objs, db) \<and>
           list_route T db (Some offset) (Some limit) =
             (Inr (VList (map (\<lambda>obj. VDict (public_view T obj)) objs)), db) \<and>
           (0 \<le> limit \<longrightarrow> int (length objs) \<le> limit)"
proof -
  let ?page = "sql_limit limit (sql_offset offset (rows T db))"
  from showable_page [OF ok, of db]
  obtain objs where objs: "fetch_all T ?page = Inr objs" "map Inr objs = map (fetch T) ?page"
    "serialize_list db T (plain (public_schema T)) objs =
       Inr (map (\<lambda>obj. VDict (public_view T obj)) objs)"
    by blast
  have len: "length objs = length ?page"
    using objs(2) by (metis length_map)
  have bound: "int (length objs) \<le> limit" if "0 \<le> limit"
    using that len by (simp add: sql_limit_def)
  have op: "list_op T db offset limit = (Inr objs, db)"
    using objs(1) off lim64 by (simp add: list_op_unfold select_offset_limit_def)
  have "list_route T db (Some offset) (Some limit) =
          (Inr (VList (map (\<lambda>obj. VDict (public_view T obj)) objs)), db)"
    using op objs(3) lim
    by (simp add: list_route_unfold query_limit_def query_offset_def respond_list_def)
  then show ?thesis using objs(2) op bound by blast
qed

text \<open>
  The claim C5 as it stands fails for a negative \<open>limit\<close>: \<^verbatim>\<open>Query(default=100, le=100)\<close>
  bounds the parameter from above only, and SQLite reads a negative \<open>LIMIT\<close> as no
  limit.  With one event stored, \<^verbatim>\<open>GET /events/?limit=-1\<close> answers with one record.
\<close>

theorem negative_limit_returns_more_than_limit:
  "GET_events after_talk None (Some (- 1)) = (Inr (VList [talk_public]), after_talk) \<and>
   \<not> int (length [talk_public]) \<le> - 1"
  by code_simp

text \<open>
  C5, amended.  For every entity: a request without \<open>offset\<close> is the request with
  \<open>offset\<close> 0 and a request without \<open>limit\<close> the request with \<open>limit\<close> 100; a request
  with \<open>limit\<close> above 100 is rejected (422) and any other \<open>limit\<close>, negative ones
  included, reaches the handler; when \<open>offset\<close> or \<open>limit\<close> is outside the signed 64-bit
  range the request ends in \<open>OverflowError\<close> (500).  Otherwise the page is the rows in
  storage order from \<open>offset\<close> on (a negative \<open>offset\<close> counts as 0), all of them when
  \<open>limit\<close> is negative and at most \<open>limit\<close> of them when it is not; and when every row
  of the page can be read and gives a presentable instance, the handler returns the
  instances of these rows, in this order, and the response is the list of their public
  views.
\<close>

theorem list_returns_page_from_offset:
  "list_route T db None ql = list_route T db (Some 0) ql \<and>
   list_route T db qo None = list_route T db qo (Some 100) \<and>
   (100 < n \<longrightarrow> list_route T db qo (Some n) = (Inl RequestValidationError, db)) \<and>
   (big \<le> 100 \<and> (\<not> int64 far \<or> \<not> int64 big) \<longrightarrow>
      list_route T db (Some far) (Some big) = (Inl OverflowError, db)) \<and>
   (limit \<le> 100 \<and> int64 offset \<and> int64 limit \<and>
    list_all (showable T)
      (if limit < 0 then drop (nat offset) (rows T db)
       else take (nat limit) (drop (nat offset) (rows T db))) \<longrightarrow>
      (\<exists>objs.
         map Inr objs =
           map (fetch T)
             (if limit < 0 then drop (nat offset) (rows T db)
              else take (nat limit) (drop (nat offset) (rows T db))) \<and>
         list_op T db offset limit = (Inr objs, db) \<and>
         list_route T db (Some offset) (Some limit) =
           (Inr (VList (map (\<lambda>obj. VDict (public_view T obj)) objs)), db) \<and>
         (0 \<le> limit \<longrightarrow> int (length objs) \<le> limit)))"
proof -
  have page: "sql_limit limit (sql_offset offset (rows T db)) =
      (if limit < 0 then drop (nat offset) (rows T db)
       else take (nat limit) (drop (nat offset) (rows T db)))"
    by (simp add: sql_limit_def sql_offset_def)
  have "query_offset None = query_offset (Some 0)" by (simp add: query_offset_def)
  then have d1: "list_route T db None ql = list_route T db (Some 0) ql"
    by (simp only: list_route_unfold)
  have "query_limit None = query_limit (Some 100)" by (simp add: query_limit_def)
  then have d2: "list_route T db qo None = list_route T db qo (Some 100)"
    by (simp only: list_route_unfold)
  have above: "100 < n \<longrightarrow> list_route T db qo (Some n) = (Inl RequestValidationError, db)"
    using limit_above_100_rejected [of n T db qo] by blast
  have beyond: "big \<le> 100 \<and> (\<not> int64 far \<or> \<not> int64 big) \<longrightarrow>
      list_route T db (Some far) (Some big) = (Inl OverflowError, db)"
    using offset_or_limit_beyond_64_bits [of big far T db] by blast
  show ?thesis
    using d1 d2 above beyond list_page [of limit offset T db, unfolded page] by blast
qed

theorem list_returns_page_from_offset_witness:
  "(100::int) < 101 \<and>
   GET_events after_talk None (Some 101) = (Inl RequestValidationError, after_talk) \<and>
   \<not> int64 (2 ^ 63) \<and>
   GET_events after_talk (Some (2 ^ 63)) (Some 1) = (Inl OverflowError, after_talk) \<and>
   list_all (showable Event) (take (nat 1) (drop (nat 0) (rows Event after_talk))) \<and>
   (\<exists>objs. read_events after_talk 0 1 = (Inr objs, after_talk) \<and>
      GET_events after_talk (Some 0) (Some 1) =
        (Inr (VList (map (\<lambda>obj. VDict (public_view Event obj)) objs)), after_talk) \<and>
      int (length objs) \<le> 1)"
proof -
  have h1: "\<not> int64 (2 ^ 63)" by code_simp
  have h2: "int64 0" "int64 1" by code_simp+
  have h3: "list_all (showable Event) (take (nat 1) (drop (nat 0) (rows Event after_talk)))"
    by code_simp
  show ?thesis
    using h1 h2 h3
      list_returns_page_from_offset
        [where n = 101 and T = Event and db = after_talk and qo = None and ql = None
          and far = "2 ^ 63" and big = 1 and offset = 0 and limit = 1]
    by auto
qed

section \<open>Deleting a parent\<close>

lemma children_after_delete:
  assumes "(P = Schedule \<and> C = Section \<and> fk = ''schedule_id'') \<or>
           (P = Section \<and> C = Event \<and> fk = ''section_id'')"
  shows "rows C (flush_delete db P pk) =
           map (\<lambda>r. if getattr r fk = VInt pk then setattr r fk VNone else r) (rows C db)"
  using assms by (auto simp: flush_delete_def Let_def rows_put_rows)

text \<open>
  The claim C8 as it stands fails: the relationships set no cascade, and for that case
  SQLAlchemy's unit of work sets the foreign key of the children of a deleted parent
  to \<open>NULL\<close>.  Event 1 references section 1; after \<^verbatim>\<open>DELETE /sections/1\<close> the event
  is still there and its \<open>section_id\<close> is \<open>None\<close>, not 1.
\<close>

theorem deleted_section_leaves_no_dangling_reference:
  "getattr (hd (event_rows after_talk)) ''section_id'' = VInt 1 \<and>
   DELETE_section after_talk 1 =
     (Inr (VDict [(''ok'', VBool True)]),
      \<lparr>event_rows =
         [[(''start_time'', VTime 9 0 0), (''end_time'', VTime 10 0 0),
           (''event_date'', VDate 2024 5 1), (''location'', VStr ''Room A''),
           (''section_id'', VNone), (''id'', VInt 1)]],
       section_rows = [], schedule_rows = [], venue_rows = []\<rparr>)"
  by code_simp

text \<open>
  C8, amended.  Deleting a Schedule or a Section that the session can load succeeds and
  deletes none of its children: the child table keeps its rows, with the same
  identifiers in the same order and every attribute but the foreign key as it was; the
  foreign key of a child that referenced the deleted parent is set to \<open>None\<close>, and no
  row references the deleted identifier afterwards.
\<close>

theorem deleting_parent_detaches_children:
  assumes rel: "(P = Schedule \<and> C = Section \<and> fk = ''schedule_id'') \<or>
                (P = Section \<and> C = Event \<and> fk = ''section_id'')"
    and parent: "session_get db P pk = Inr (Some parent)"
  shows "\<exists>db'. delete_op P db pk = (Inr [(''ok'', VBool True)], db') \<and>
           map row_id (rows C db') = map row_id (rows C db) \<and>
           list_all2
             (\<lambda>r r'. (\<forall>k. k \<noteq> fk \<longrightarrow> getattr r' k = getattr r k) \<and>
                      getattr r' fk = (if getattr r fk = VInt pk then VNone else getattr r fk))
             (rows C db) (rows C db') \<and>
           list_all (\<lambda>r'. getattr r' fk \<noteq> VInt pk) (rows C db')"
proof -
  let ?db' = "flush_delete db P pk"
  let ?detach = "\<lambda>r. if getattr r fk = VInt pk then setattr r fk VNone else r"
  have fk: "fk \<noteq> ''id''" using rel by auto
  have out: "delete_op P db pk = (Inr [(''ok'', VBool True)], ?db')"
    using parent by (simp add: delete_op_unfold)
  have children: "rows C ?db' = map ?detach (rows C db)"
    by (rule children_after_delete [OF rel])
  have ids: "map row_id (rows C ?db') = map row_id (rows C db)"
    using fk by (simp add: children row_id_setattr)
  have frame: "list_all2
             (\<lambda>r r'. (\<forall>k. k \<noteq> fk \<longrightarrow> getattr r' k = getattr r k) \<and>
                      getattr r' fk = (if getattr r fk = VInt pk then VNone else getattr r fk))
             (rows C db) (rows C ?db')"
    unfolding children by (simp add: list_all2_map2 list_all2_same getattr_setattr)
  have gone: "list_all (\<lambda>r'. getattr r' fk \<noteq> VInt pk) (rows C ?db')"
    unfolding children by (auto simp: list_all_iff getattr_setattr)
  show ?thesis using out ids frame gone by blast
qed

theorem deleting_parent_detaches_children_witness:
  "session_get after_talk Section 1 =
     Inr (Some [(''title'', VStr ''Morning''), (''sequence'', VStr ''1''), (''status'', VNone),
                (''id'', VInt 1), (''schedule_id'', VNone)]) \<and>
   (\<exists>db'. delete_section after_talk 1 = (Inr [(''ok'', VBool True)], db') \<and>
      map row_id (rows Event db') = map row_id (rows Event after_talk) \<and>
      list_all (\<lambda>r'. getattr r' ''section_id'' \<noteq> VInt 1) (rows Event db'))"
proof -
  have h: "session_get after_talk Section 1 =
     Inr (Some [(''title'', VStr ''Morning''), (''sequence'', VStr ''1''), (''status'', VNone),
                (''id'', VInt 1), (''schedule_id'', VNone)])"
    by code_simp
  show ?thesis
    using h deleting_parent_detaches_children [of Section Event "''section_id''" after_talk 1, OF _ h]
    by auto
qed

text \<open>
  A record that the session can load is deleted as C7 says, for every entity: the
  request is acknowledged, and a fetch of the identifier is then not found.
\<close>

lemma own_rows_after_delete:
  "rows T (flush_delete db T pk) = filter (\<lambda>r. row_id r \<noteq> pk) (rows T db)"
  by (cases T) (simp_all add: flush_delete_def Let_def rows_put_rows)

lemma delete_then_not_found:
  assumes "session_get db T pk = Inr (Some obj)"
  shows "\<exists>db'. delete_op T db pk = (Inr [(''ok'', VBool True)], db') \<and>
           delete_route T db pk = (Inr (VDict [(''ok'', VBool True)]), db') \<and>
           read_op T db' pk = (Inl (not_found T), db') \<and>
           read_route T db' pk = (Inl (not_found T), db')"
proof -
  let ?db' = "flush_delete db T pk"
  have "int64 pk" using assms by (rule session_get_int64)
  moreover have "pk \<notin> row_id ` set (rows T ?db')" by (auto simp: own_rows_after_delete)
  ultimately have "session_get ?db' T pk = Inr None" by (rule session_get_missing)
  then have rd: "read_op T ?db' pk = (Inl (not_found T), ?db')" by (simp add: read_op_unfold)
  then have rd': "read_route T ?db' pk = (Inl (not_found T), ?db')" by (rule read_route_error)
  have del: "delete_op T db pk = (Inr [(''ok'', VBool True)], ?db')"
    using assms by (simp add: delete_op_unfold)
  then have "delete_route T db pk = (Inr (VDict [(''ok'', VBool True)]), ?db')"
    by (simp add: delete_route_unfold respond_dict_def)
  then show ?thesis using del rd rd' by blast
qed

section \<open>Updating\<close>

subsection \<open>What an update writes and reads back\<close>

lemma fetched_id:
  assumes "fetch T r = Inr obj"
  shows "getattr obj ''id'' = getattr r ''id''"
proof -
  obtain idc where idc: "idc \<in> set (columns T)" "cname idc = ''id''" "sa_typ idc = Integer"
    using id_column [of T] by blast
  have "result_processor (sa_typ idc) (getattr r (cname idc)) = Inr (getattr obj (cname idc))"
    using assms distinct_cnames idc(1) unfolding fetch_def by (rule fetch_columns_getattr)
  then show ?thesis using idc by (simp add: result_processor_def)
qed

lemma session_get_row_id:
  assumes "session_get db T pk = Inr (Some obj)"
  shows "row_id obj = pk"
proof -
  from assms obtain r where r: "find (\<lambda>r. row_id r = pk) (rows T db) = Some r"
    and ld: "fetch T r = Inr obj" by (rule session_get_SomeD)
  have "row_id r = pk" using r by (auto simp: find_Some_iff)
  then show ?thesis using fetched_id [OF ld] by (simp add: row_id_def)
qed

lemma in_range_data:
  assumes "\<not> overflows data" and "map_of data k = Some (VInt i)"
  shows "int64 i"
proof -
  have "(k, VInt i) \<in> set data" using assms(2) by (rule map_of_SomeD)
  then show ?thesis using assms(1) by (auto simp: overflows_def list_ex_iff)
qed

lemma overflowsI:
  assumes "(k, VInt i) \<in> set params" and "\<not> int64 i"
  shows "overflows params"
  using assms by (force simp: overflows_def list_ex_iff)

lemma bound_in_range:
  assumes "\<And>c i. c \<in> set cs \<Longrightarrow> g c = VInt i \<Longrightarrow> int64 i"
  shows "\<not> overflows (map (\<lambda>c. (cname c, bind_processor (sa_typ c) (g c))) cs)"
proof -
  have "int64 i" if "c \<in> set cs" and "bind_processor (sa_typ c) (g c) = VInt i" for c i
  proof -
    have "g c = VInt i"
      using that(2) by (auto simp: bind_processor_def process_bind_param_def split: if_splits)
    then show ?thesis using that(1) by (rule assms [rotated])
  qed
  then show ?thesis by (auto simp: overflows_def list_ex_iff split: val.splits)
qed

lemma dirty_in_data:
  assumes "distinct (map fst data)"
    and "c \<in> set (dirty T loaded (fold (\<lambda>(key, value) obj. setattr obj key value) data loaded))"
  shows "map_of data (cname c) =
           Some (getattr (fold (\<lambda>(key, value) obj. setattr obj key value) data loaded) (cname c))"
  using assms(2) getattr_fold_setattr [OF assms(1), of loaded "cname c"]
  by (auto simp: dirty_def split: option.splits)

lemma dirty_params_in_range:
  assumes "distinct (map fst data)" and "\<not> overflows data"
    and "obj = fold (\<lambda>(key, value) obj. setattr obj key value) data loaded"
  shows "\<not> overflows
           (map (\<lambda>c. (cname c, bind_processor (sa_typ c) (getattr obj (cname c))))
              (dirty T loaded obj))"
proof (rule bound_in_range)
  fix c i
  assume "c \<in> set (dirty T loaded obj)" and "getattr obj (cname c) = VInt i"
  then have "map_of data (cname c) = Some (VInt i)"
    using dirty_in_data [OF assms(1), of c T loaded] assms(3) by simp
  with assms(2) show "int64 i" by (rule in_range_data)
qed

lemma update_core:
  assumes got: "find (\<lambda>r. row_id r = pk) (rows T db) = Some r"
    and pk64: "int64 pk"
    and ld: "fetch T r = Inr loaded"
    and dist: "distinct (map fst data)"
    and st: "storable T data"
    and kf: "key_free T db loaded data"
    and obj: "obj = fold (\<lambda>(key, value) obj. setattr obj key value) data loaded"
    and fresh: "obj' = map (\<lambda>c. (cname c, getattr obj (cname c))) (columns T)"
  shows "\<exists>db'. flush_update db T pk loaded obj = Inr db' \<and>
           session_get db' T (row_id obj) = Inr (Some obj') \<and>
           row_id ` set (rows T db') = insert (row_id obj) (row_id ` set (rows T db) - {pk})"
proof -
  let ?changed = "dirty T loaded obj"
  let ?params =
    "map (\<lambda>c. (cname c, bind_processor (sa_typ c) (getattr obj (cname c)))) ?changed"
  have obj_attr: "getattr obj k = (case map_of data k of Some v \<Rightarrow> v | None \<Rightarrow> getattr loaded k)"
    for k unfolding obj by (rule getattr_fold_setattr [OF dist])
  have ld_col: "result_processor (sa_typ c) (getattr r (cname c)) = Inr (getattr loaded (cname c))"
    if "c \<in> set (columns T)" for c
    using ld that unfolding fetch_def by (rule fetch_columns_getattr [OF _ distinct_cnames])
  have changed_iff: "c \<in> set ?changed \<longleftrightarrow>
      c \<in> set (columns T) \<and> getattr obj (cname c) \<noteq> getattr loaded (cname c)" for c
    by (auto simp: dirty_def)
  have in_data: "map_of data (cname c) = Some (getattr obj (cname c))"
    if "c \<in> set ?changed" for c
    using that obj_attr [of "cname c"] by (auto simp: changed_iff split: option.splits)
  have st_col: "if sa_typ c = HttpUrlType then HttpUrl v = Inr v else nullable c \<or> v \<noteq> VNone"
    if "c \<in> set (columns T)" and "map_of data (cname c) = Some v" for c v
    using st that by (auto simp: storable_def list_all_iff split: option.splits)
  have rt: "result_processor (sa_typ c) (bind_processor (sa_typ c) (getattr obj (cname c))) =
              Inr (getattr obj (cname c))"
    if "c \<in> set ?changed" for c
  proof (rule result_bind)
    assume "sa_typ c = HttpUrlType"
    then show "HttpUrl (getattr obj (cname c)) = Inr (getattr obj (cname c))"
      using st_col [OF _ in_data [OF that]] that by (simp add: changed_iff)
  qed
  have params_at: "map_of ?params (cname c) =
      (if getattr obj (cname c) \<noteq> getattr loaded (cname c)
       then Some (bind_processor (sa_typ c) (getattr obj (cname c))) else None)"
    if "c \<in> set (columns T)" for c
    unfolding dirty_def by (rule map_of_filtered_columns [OF distinct_cnames that])
  have keys_params: "map fst ?params = map cname ?changed" by (simp add: comp_def)
  have "distinct (map cname ?changed)"
    unfolding dirty_def using distinct_cnames [of T] by (rule distinct_map_filter)
  then have dist_params: "distinct (map fst ?params)"
    by (simp only: keys_params)
  have set_attr: "getattr (sql_set ?params x) (cname c) =
      (if getattr obj (cname c) \<noteq> getattr loaded (cname c)
       then bind_processor (sa_typ c) (getattr obj (cname c)) else getattr x (cname c))"
    if "c \<in> set (columns T)" for x c
    unfolding sql_set_def getattr_fold_setattr [OF dist_params] params_at [OF that] by simp
  have fetch_r: "fetch T (sql_set ?params r) = Inr obj'"
    unfolding fetch_def fresh
  proof (rule fetch_columns_intro)
    fix c assume c: "c \<in> set (columns T)"
    show "result_processor (sa_typ c) (getattr (sql_set ?params r) (cname c)) =
            Inr (getattr obj (cname c))"
    proof (cases "getattr obj (cname c) = getattr loaded (cname c)")
      case True
      then show ?thesis using set_attr [OF c] ld_col [OF c] by simp
    next
      case False
      then have "c \<in> set ?changed" using c by (simp add: changed_iff)
      then show ?thesis using set_attr [OF c] rt False by simp
    qed
  qed
  have nn: "\<not> list_ex (\<lambda>c. \<not> nullable c \<and> getattr ?params (cname c) = VNone) ?changed"
  proof -
    have "nullable c \<or> getattr ?params (cname c) \<noteq> VNone" if c: "c \<in> set ?changed" for c
    proof -
      have cT: "c \<in> set (columns T)" using c by (simp add: changed_iff)
      have "getattr ?params (cname c) = bind_processor (sa_typ c) (getattr obj (cname c))"
        using params_at [OF cT] c by (simp add: getattr_def changed_iff)
      then show ?thesis
        using st_col [OF cT in_data [OF c]]
        by (auto simp: bind_processor_def process_bind_param_def split: if_splits)
    qed
    then show ?thesis by (auto simp: list_ex_iff)
  qed
  have range: "\<not> overflows ?params"
    using dist _ obj
  proof (rule dirty_params_in_range)
    show "\<not> overflows data" using st by (simp add: storable_def)
  qed
  obtain idc where idc: "idc \<in> set (columns T)" "cname idc = ''id''" "sa_typ idc = Integer"
    using id_column [of T] by blast
  have "getattr loaded ''id'' = getattr r ''id''"
    using ld_col [OF idc(1)] idc by (simp add: result_processor_def)
  then have rid_loaded: "row_id loaded = row_id r" by (simp add: row_id_def)
  have rid_r: "row_id r = pk" and r_in: "r \<in> set (rows T db)"
    using got by (auto simp: find_Some_iff)
  show ?thesis
  proof (cases "getattr obj ''id'' = getattr loaded ''id''")
    case True
    have notin: "''id'' \<notin> set (map fst ?params)"
    proof
      assume "''id'' \<in> set (map fst ?params)"
      then obtain c where "c \<in> set ?changed" "cname c = ''id''"
        unfolding keys_params by auto
      then show False using True by (simp add: changed_iff)
    qed
    have "''id'' \<notin> fst ` set ?params" using notin by (simp add: image_image)
    then have "getattr (sql_set ?params x) ''id'' = getattr x ''id''" for x
      unfolding sql_set_def by (rule getattr_fold_setattr_other)
    then have keep: "row_id (sql_set ?params x) = row_id x" for x
      by (simp add: row_id_def)
    let ?rows' = "map (\<lambda>x. if row_id x = pk then sql_set ?params x else x) (rows T db)"
    have fl: "flush_update db T pk loaded obj = Inr (put_rows T ?rows' db)"
      using nn notin range by (simp add: flush_update_def Let_def)
    have "find (\<lambda>x. row_id x = pk) ?rows' =
            map_option (\<lambda>x. if row_id x = pk then sql_set ?params x else x)
              (find (\<lambda>x. row_id x = pk) (rows T db))"
      by (rule find_map_same) (simp add: keep)
    then have found: "find (\<lambda>x. row_id x = pk) ?rows' = Some (sql_set ?params r)"
      using got rid_r by simp
    have rid_obj: "row_id obj = pk"
      using True rid_loaded rid_r by (simp add: row_id_def)
    have get: "session_get (put_rows T ?rows' db) T (row_id obj) = Inr (Some obj')"
      using found fetch_r rid_obj pk64 by (simp add: session_get_def rows_put_rows)
    have "map row_id ?rows' = map row_id (rows T db)"
      by (simp add: keep if_distrib [of row_id] comp_def)
    then have "set (map row_id ?rows') = set (map row_id (rows T db))" by simp
    then have "row_id ` set ?rows' = row_id ` set (rows T db)"
      by (simp only: set_map)
    moreover have "pk \<in> row_id ` set (rows T db)" using rid_r r_in by auto
    ultimately have ids: "row_id ` set (rows T (put_rows T ?rows' db)) =
        insert (row_id obj) (row_id ` set (rows T db) - {pk})"
      using rid_obj by (auto simp: rows_put_rows)
    show ?thesis using fl get ids by blast
  next
    case False
    then obtain v where v: "map_of data ''id'' = Some v" "getattr obj ''id'' = v"
      using obj_attr [of "''id''"] by (auto split: option.splits)
    then obtain new where new: "v = VInt new" "new \<notin> set (map row_id (rows T db))"
      and new64: "int64 new"
      using kf False by (auto simp: key_free_def split: val.splits)
    have idc_changed: "idc \<in> set ?changed" using False idc by (simp add: changed_iff)
    then have isin: "''id'' \<in> set (map fst ?params)"
      unfolding keys_params using idc(2) by force
    have pid: "getattr ?params ''id'' = VInt new"
      using params_at [OF idc(1)] idc False v new by (simp add: getattr_def bind_processor_def)
    let ?r' = "sql_set ?params r"
    let ?rows' = "insort_key row_id ?r' (filter (\<lambda>x. row_id x \<noteq> pk) (rows T db))"
    have fl: "flush_update db T pk loaded obj = Inr (put_rows T ?rows' db)"
      using nn isin pid new got range by (simp add: flush_update_def Let_def)
    have rid_r': "row_id ?r' = new"
      using set_attr [OF idc(1), of r] idc False v new
      by (simp add: row_id_def bind_processor_def)
    have rid_obj: "row_id obj = new" using v new by (simp add: row_id_def)
    have found: "find (\<lambda>x. row_id x = new) ?rows' = Some ?r'"
    proof (rule find_insort_key)
      show "row_id ?r' = new" by (rule rid_r')
      show "\<not> row_id y = new" if "y \<in> set (filter (\<lambda>x. row_id x \<noteq> pk) (rows T db))" for y
        using that new(2) by auto
    qed
    have get: "session_get (put_rows T ?rows' db) T (row_id obj) = Inr (Some obj')"
      using found fetch_r rid_obj new64 by (simp add: session_get_def rows_put_rows)
    have ids: "row_id ` set (rows T (put_rows T ?rows' db)) =
        insert (row_id obj) (row_id ` set (rows T db) - {pk})"
      using rid_r' rid_obj by (auto simp: rows_put_rows set_insort_key)
    show ?thesis using fl get ids by blast
  qed
qed

lemma update_succeeds:
  assumes got: "session_get db T pk = Inr (Some loaded)"
    and data: "data = model_dump_exclude_unset (update_schema T) m"
    and st: "storable T data"
    and kf: "key_free T db loaded data"
  shows "\<exists>obj db'. update_op T db pk m = (Inr obj, db') \<and>
           (\<forall>k. getattr obj k = (case map_of data k of Some v \<Rightarrow> v | None \<Rightarrow> getattr loaded k)) \<and>
           session_get db' T (row_id obj) = Inr (Some obj) \<and>
           row_id ` set (rows T db') = insert (row_id obj) (row_id ` set (rows T db) - {pk})"
proof -
  from got obtain r where r: "find (\<lambda>r. row_id r = pk) (rows T db) = Some r"
    and ld: "fetch T r = Inr loaded" and pk64: "int64 pk" by (rule session_get_SomeD)
  define obj where "obj = fold (\<lambda>(key, value) obj. setattr obj key value) data loaded"
  define obj' where "obj' = map (\<lambda>c. (cname c, getattr obj (cname c))) (columns T)"
  have dist: "distinct (map fst data)" unfolding data by (rule distinct_dump)
  have keys: "fst ` set data \<subseteq> cname ` set (columns T)"
    unfolding data by (rule dump_keys_are_columns)
  from update_core [OF r pk64 ld dist st kf obj_def obj'_def]
  obtain db' where fl: "flush_update db T pk loaded obj = Inr db'"
    and get: "session_get db' T (row_id obj) = Inr (Some obj')"
    and ids: "row_id ` set (rows T db') = insert (row_id obj) (row_id ` set (rows T db) - {pk})"
    by blast
  have obj_attr: "getattr obj k = (case map_of data k of Some v \<Rightarrow> v | None \<Rightarrow> getattr loaded k)"
    for k unfolding obj_def by (rule getattr_fold_setattr [OF dist])
  have loaded_keys: "fst ` set loaded = cname ` set (columns T)"
    using fetch_columns_keys [OF ld [unfolded fetch_def]] by (metis set_map)
  have same: "getattr obj' k = getattr obj k" for k
  proof (cases "k \<in> cname ` set (columns T)")
    case True
    then show ?thesis
      unfolding obj'_def by (simp add: getattr_columns_map [OF distinct_cnames])
  next
    case False
    then have "map_of data k = None" using keys by (auto simp: map_of_eq_None_iff)
    moreover have "getattr loaded k = VNone"
      using False loaded_keys by (simp add: getattr_outside)
    ultimately have "getattr obj k = VNone" using obj_attr [of k] by simp
    then show ?thesis
      unfolding obj'_def using False by (simp add: getattr_columns_map [OF distinct_cnames])
  qed
  then have rid: "row_id obj' = row_id obj" by (simp add: row_id_def)
  have "update_op T db pk m = (Inr obj', db')"
    using got fl get
    by (simp add: update_op_unfold Let_def session_refresh_def data [symmetric] obj_def [symmetric])
  then show ?thesis using same obj_attr get ids rid by auto
qed

lemma flush_update_keeps_ids:
  assumes same: "getattr obj ''id'' = getattr loaded ''id''"
    and fl: "flush_update db T pk loaded obj = Inr db'"
  shows "map row_id (rows T db') = map row_id (rows T db)"
proof -
  let ?changed = "dirty T loaded obj"
  let ?params =
    "map (\<lambda>c. (cname c, bind_processor (sa_typ c) (getattr obj (cname c)))) ?changed"
  have keys_params: "map fst ?params = map cname ?changed" by (simp add: comp_def)
  have notin: "''id'' \<notin> set (map fst ?params)"
  proof
    assume "''id'' \<in> set (map fst ?params)"
    then obtain c where "c \<in> set ?changed" "cname c = ''id''"
      unfolding keys_params by auto
    then show False using same by (simp add: dirty_def)
  qed
  have "''id'' \<notin> fst ` set ?params" using notin by (simp add: image_image)
  then have "getattr (sql_set ?params x) ''id'' = getattr x ''id''" for x
    unfolding sql_set_def by (rule getattr_fold_setattr_other)
  then have keep: "row_id (sql_set ?params x) = row_id x" for x
    by (simp add: row_id_def)
  let ?rows' = "map (\<lambda>x. if row_id x = pk then sql_set ?params x else x) (rows T db)"
  have "db' = put_rows T ?rows' db"
    using fl notin by (simp add: flush_update_def Let_def split: if_splits)
  moreover have "map row_id ?rows' = map row_id (rows T db)"
    by (simp add: keep if_distrib [of row_id] comp_def)
  ultimately show ?thesis by (simp add: rows_put_rows)
qed

lemma update_keeps_ids:
  assumes "''id'' \<notin> set (map fname (model_fields (update_schema T)))"
  shows "map row_id (rows T (snd (update_op T db pk m))) = map row_id (rows T db)"
proof -
  let ?data = "model_dump_exclude_unset (update_schema T) m"
  have "''id'' \<notin> set (map fst ?data)" using assms unfolding dump_keys by simp
  then have notin: "''id'' \<notin> fst ` set ?data" by simp
  have same: "getattr (fold (\<lambda>(key, value) obj. setattr obj key value) ?data loaded) ''id'' =
                getattr loaded ''id''" for loaded
    using notin by (rule getattr_fold_setattr_other)
  show ?thesis
    using flush_update_keeps_ids [OF same]
    by (auto simp: update_op_unfold Let_def split: sum.splits option.splits)
qed

subsection \<open>The fields an update changes\<close>

text \<open>
  A payload that passed validation carries an \<open>HttpUrl\<close> or \<open>None\<close> in every field of
  type \<open>HttpUrl\<close>; so it is storable as soon as it gives no improper \<open>None\<close>.
\<close>

lemma url_column_has_url_field:
  assumes "c \<in> set (columns T)" and "sa_typ c = HttpUrlType"
    and "f \<in> set (model_fields (update_schema T))" and "fname f = cname c"
  shows "ftyp f = T_HttpUrl"
  using assms by (cases T) (auto simp: schema_defs field_defs col_def)

lemma validated_url_value:
  assumes "validate_field f (Some w) = Some v" and "ftyp f = T_HttpUrl" and "v \<noteq> VNone"
  shows "HttpUrl v = Inr v"
proof -
  have "coerce T_HttpUrl w = Some v"
    using assms by (auto simp: validate_field_def split: if_splits)
  then have "HttpUrl w = Inr v" by (auto simp: coerce_def split: sum.splits)
  then show ?thesis by (rule HttpUrl_idem)
qed

lemma map_of_keyed:
  "map_of (map (\<lambda>k. (k, g k)) ks) k = (if k \<in> set ks then Some (g k) else None)"
  by (induction ks) auto

lemma validated_dump_value:
  assumes v: "validate_body (update_schema T) body = Inr m"
    and x: "map_of (model_dump_exclude_unset (update_schema T) m) k = Some x"
  obtains f w where "f \<in> set (model_fields (update_schema T))" and "fname f = k"
    and "map_of body k = Some w" and "validate_field f (Some w) = Some x"
proof -
  let ?U = "update_schema T"
  from v obtain a where a: "validate_fields (model_fields ?U) (map_of body) = Some a"
    and m: "m = \<lparr>attrs = a,
                 fields_set = filter (\<lambda>k. map_of body k \<noteq> None) (map fname (model_fields ?U))\<rparr>"
    by (auto simp: validate_body_def split: if_splits option.splits)
  from x have key: "k \<in> set (map fname (model_fields ?U))"
    and set: "k \<in> set (fields_set m)"
    and val: "x = getattr (attrs m) k"
    by (auto simp: model_dump_exclude_unset_def map_of_keyed split: if_splits)
  from key obtain f where f: "f \<in> set (model_fields ?U)" "fname f = k" by auto
  from set obtain w where w: "map_of body k = Some w" using m by auto
  have "validate_field f (map_of body (fname f)) = Some (getattr a (fname f))"
    using a distinct_update_fields f(1) by (rule validate_fields_attr)
  then have "validate_field f (Some w) = Some x" using f(2) w val m by simp
  with f w show ?thesis by (rule that)
qed

lemma coerce_VInt: "coerce t w = Some (VInt i) \<Longrightarrow> t = T_int"
  by (cases t; cases w) (auto simp: coerce_def split: if_splits sum.splits)

lemma int_field_is_id:
  assumes "f \<in> set (model_fields (update_schema T))" and "ftyp f = T_int"
  shows "fname f = ''id''"
  using assms by (cases T) (auto simp: schema_defs field_defs)

lemma update_field_type:
  assumes "g \<in> set (model_fields (update_schema T))"
    and "f \<in> set (model_fields (public_schema T))" and "fname g = fname f"
  shows "ftyp g = ftyp f"
  using assms by (cases T) (auto simp: schema_defs field_defs)

text \<open>The only integer an update payload can carry is the \<open>id\<close> of a Section.\<close>

lemma update_int_is_id:
  assumes v: "validate_body (update_schema T) body = Inr m"
    and x: "map_of (model_dump_exclude_unset (update_schema T) m) k = Some (VInt i)"
  shows "k = ''id''"
proof -
  from v x obtain f w where f: "f \<in> set (model_fields (update_schema T))" "fname f = k"
    and val: "validate_field f (Some w) = Some (VInt i)"
    by (rule validated_dump_value)
  from val have "coerce (ftyp f) w = Some (VInt i)"
    by (auto simp: validate_field_def split: if_splits)
  then have "ftyp f = T_int" by (rule coerce_VInt)
  with f(1) have "fname f = ''id''" by (rule int_field_is_id)
  then show ?thesis using f(2) by simp
qed

lemma update_data_in_range:
  assumes v: "validate_body (update_schema T) body = Inr m"
    and id64: "\<And>i. map_of (model_dump_exclude_unset (update_schema T) m) ''id'' = Some (VInt i)
                 \<Longrightarrow> int64 i"
  shows "\<not> overflows (model_dump_exclude_unset (update_schema T) m)"
proof
  let ?data = "model_dump_exclude_unset (update_schema T) m"
  assume "overflows ?data"
  then obtain k i where ki: "(k, VInt i) \<in> set ?data" and big: "\<not> int64 i"
    by (auto simp: overflows_def list_ex_iff split: val.splits)
  have at: "map_of ?data k = Some (VInt i)"
    using distinct_dump ki by (rule map_of_is_SomeI)
  then have "k = ''id''" using v by (rule update_int_is_id [rotated])
  then have "int64 i" using at id64 by simp
  then show False using big by simp
qed

text \<open>
  A payload that passed validation carries an \<open>HttpUrl\<close> or \<open>None\<close> in every field of
  type \<open>HttpUrl\<close>, and no integer but an \<open>id\<close>; so it is storable as soon as it gives
  no improper \<open>None\<close> and its \<open>id\<close> is free.
\<close>

lemma validated_update_storable:
  assumes v: "validate_body (update_schema T) body = Inr m"
    and nn: "no_null T (model_dump_exclude_unset (update_schema T) m)"
    and got: "session_get db T pk = Inr (Some loaded)"
    and kf: "key_free T db loaded (model_dump_exclude_unset (update_schema T) m)"
  shows "storable T (model_dump_exclude_unset (update_schema T) m)"
proof -
  let ?U = "update_schema T"
  let ?data = "model_dump_exclude_unset ?U m"
  have ok: "if sa_typ c = HttpUrlType then HttpUrl x = Inr x else nullable c \<or> x \<noteq> VNone"
    if c: "c \<in> set (columns T)" and x: "map_of ?data (cname c) = Some x" for c x
  proof (cases "x = VNone")
    case True
    then show ?thesis using nn c x by (auto simp: no_null_def list_all_iff)
  next
    case False
    show ?thesis
    proof (cases "sa_typ c = HttpUrlType")
      case url: True
      from v x obtain f w where f: "f \<in> set (model_fields ?U)" "fname f = cname c"
        and val: "validate_field f (Some w) = Some x"
        by (rule validated_dump_value)
      have "ftyp f = T_HttpUrl"
        using c url f by (rule url_column_has_url_field)
      with val have "HttpUrl x = Inr x" using False by (rule validated_url_value)
      then show ?thesis using url by simp
    next
      case False
      then show ?thesis using \<open>x \<noteq> VNone\<close> by simp
    qed
  qed
  have "int64 i" if i: "map_of ?data ''id'' = Some (VInt i)" for i
  proof (cases "VInt i = getattr loaded ''id''")
    case True
    then have "getattr loaded ''id'' = VInt i" by simp
    then have "row_id loaded = i" by (simp add: row_id_def)
    then have "i = pk" using session_get_row_id [OF got] by simp
    then show ?thesis using session_get_int64 [OF got] by simp
  next
    case False
    then show ?thesis using kf i by (simp add: key_free_def)
  qed
  with v have "\<not> overflows ?data" by (rule update_data_in_range)
  with ok show ?thesis by (auto simp: storable_def list_all_iff split: option.splits)
qed

text \<open>
  The instance an update leaves is presentable when the one it loaded was: a value the
  payload gives was validated against a field of the same type, and where it is \<open>None\<close>
  the field of the public model admits \<open>None\<close>.
\<close>

lemma same_name_same_field:
  assumes "distinct (map fname fs)" and "f \<in> set fs" and "f' \<in> set fs"
    and "fname f' = fname f"
  shows "f' = f"
  using assms by (auto simp: distinct_map inj_on_def)

lemma updated_field_presentable:
  assumes v: "validate_body (update_schema T) body = Inr m"
    and data: "model_dump_exclude_unset (update_schema T) m = data"
    and nn: "no_null T data"
    and ld: "fetch T r = Inr loaded"
    and pres: "presentable T loaded"
    and attr: "\<And>k. getattr obj k = (case map_of data k of Some v \<Rightarrow> v | None \<Rightarrow> getattr loaded k)"
    and f: "f \<in> set (model_fields (public_schema T))"
  shows "validate_field f (Some (getattr obj (fname f))) = Some (getattr obj (fname f))"
proof (cases "map_of data (fname f)")
  case None
  then have "getattr obj (fname f) = getattr loaded (fname f)" using attr [of "fname f"] by simp
  then show ?thesis using presentable_field [OF ld pres f] by simp
next
  case (Some x)
  then have obj: "getattr obj (fname f) = x" using attr [of "fname f"] by simp
  show ?thesis
  proof (cases "x = VNone")
    case True
    have "fname f \<in> set (map fname (model_fields (public_schema T)))" using f by simp
    then have "fname f \<in> cname ` set (columns T)"
      using public_fields_are_columns [of T] by blast
    then obtain c where c: "c \<in> set (columns T)" "cname c = fname f" by auto
    have "list_ex (\<lambda>f'. fname f' = cname c \<and> noneable f') (model_fields (public_schema T))"
      using nn c Some True by (auto simp: no_null_def list_all_iff)
    then obtain f' where f': "f' \<in> set (model_fields (public_schema T))"
      "fname f' = fname f" "noneable f'"
      using c(2) by (auto simp: list_ex_iff)
    have "f' = f" using distinct_public_fields f f'(1) f'(2) by (rule same_name_same_field)
    then have "noneable f" using f'(3) by simp
    then show ?thesis using obj True by (simp add: validate_field_def)
  next
    case False
    have x: "map_of (model_dump_exclude_unset (update_schema T) m) (fname f) = Some x"
      using Some data by simp
    from v x obtain g w where g: "g \<in> set (model_fields (update_schema T))" "fname g = fname f"
      and val: "validate_field g (Some w) = Some x"
      by (rule validated_dump_value)
    from val False have "coerce (ftyp g) w = Some x"
      by (auto simp: validate_field_def split: if_splits)
    then have "coerce (ftyp g) x = Some x" by (rule coerce_idem)
    moreover have "ftyp g = ftyp f" using g(1) f g(2) by (rule update_field_type)
    ultimately show ?thesis using obj False by (simp add: validate_field_def)
  qed
qed

text \<open>The request of an update that the handler carries out, for every entity.\<close>

lemma update_request_succeeds:
  assumes got: "session_get db T pk = Inr (Some loaded)"
    and pres: "presentable T loaded"
    and v: "validate_body (update_schema T) body = Inr m"
    and data: "model_dump_exclude_unset (update_schema T) m = data"
    and nn: "no_null T data"
    and kf: "key_free T db loaded data"
  shows "\<exists>obj db'. update_op T db pk m = (Inr obj, db') \<and>
           (\<forall>k. getattr obj k = (case map_of data k of Some v \<Rightarrow> v | None \<Rightarrow> getattr loaded k)) \<and>
           session_get db' T (row_id obj) = Inr (Some obj) \<and>
           row_id ` set (rows T db') = insert (row_id obj) (row_id ` set (rows T db) - {pk}) \<and>
           update_route T db pk body = (Inr (VDict (public_view T obj)), db')"
proof -
  have "storable T data"
    using validated_update_storable [OF v _ got] nn kf data by simp
  from update_succeeds [OF got data [symmetric] this kf]
  obtain obj db' where out: "update_op T db pk m = (Inr obj, db')"
    and attr: "\<And>k. getattr obj k = (case map_of data k of Some v \<Rightarrow> v | None \<Rightarrow> getattr loaded k)"
    and get: "session_get db' T (row_id obj) = Inr (Some obj)"
    and ids: "row_id ` set (rows T db') = insert (row_id obj) (row_id ` set (rows T db) - {pk})"
    by blast
  from got obtain r where ld: "fetch T r = Inr loaded" by (rule session_get_SomeD)
  from get obtain r' where ld': "fetch T r' = Inr obj" by (rule session_get_SomeD)
  have "validate_fields (model_fields (public_schema T)) (map_of obj) = Some (public_view T obj)"
    using ld' updated_field_presentable [OF v data nn ld pres attr]
    by (rule response_of_fields)
  then have "update_route T db pk body = (Inr (VDict (public_view T obj)), db')"
    using v out
    by (simp add: update_route_unfold respond_def serialize_response_def plain_def)
  then show ?thesis using out attr get ids by blast
qed


text \<open>
  A \<^verbatim>\<open>null\<close> does other harm in two more places.  For a URL,
  \<^verbatim>\<open>process_bind_param\<close> writes the text \<^verbatim>\<open>None\<close>, which satisfies \<open>NOT NULL\<close>: the
  update is committed and the record cannot be read any more.  For \<open>locations\<close> the
  column is nullable and the \<open>None\<close> is stored, but the public model wants a
  dictionary: the update is committed, its response fails, and so does every later
  response that holds the record.
\<close>

lemma null_for_url_is_stored_as_text:
  "fst (PATCH_schedule after_retreat 1 [(''url'', VNone)]) = Inl ValidationError \<and>
   map (\<lambda>r. getattr r ''url'')
     (schedule_rows (snd (PATCH_schedule after_retreat 1 [(''url'', VNone)]))) =
     [VStr ''None''] \<and>
   fst (GET_schedule (snd (PATCH_schedule after_retreat 1 [(''url'', VNone)])) 1) =
     Inl ValidationError"
  by code_simp

lemma null_for_locations_is_stored_and_not_presentable:
  "fst (PATCH_schedule after_retreat 1 [(''locations'', VNone)]) = Inl ResponseValidationError \<and>
   map (\<lambda>r. getattr r ''locations'')
     (schedule_rows (snd (PATCH_schedule after_retreat 1 [(''locations'', VNone)]))) =
     [VNone] \<and>
   fst (GET_schedules (snd (PATCH_schedule after_retreat 1 [(''locations'', VNone)])) None None) =
     Inl ResponseValidationError"
  by code_simp



subsection \<open>Identifiers under update\<close>

lemma snd_respond: "snd (respond T rm out) = snd out"
  by (cases out; cases "fst out") (auto simp: respond_def)

lemma update_route_keeps_ids:
  assumes "''id'' \<notin> set (map fname (model_fields (update_schema T)))"
  shows "map row_id (rows T (snd (update_route T db pk body))) = map row_id (rows T db)"
proof (cases "validate_body (update_schema T) body")
  case (Inl e)
  then show ?thesis by (simp add: update_route_unfold)
next
  case (Inr m)
  then show ?thesis
    using update_keeps_ids [OF assms, of db pk m] by (simp add: update_route_unfold snd_respond)
qed

text \<open>
  What the \<open>UPDATE\<close> of a Section does with an \<open>id\<close> it cannot take: binding an integer
  outside the 64-bit range raises, and the key of another Section violates the primary
  key.
\<close>

lemma section_id_refused:
  assumes got: "session_get db Section pk = Inr (Some loaded)"
    and v: "validate_body SectionUpdate body = Inr m"
    and idv: "map_of (model_dump_exclude_unset SectionUpdate m) ''id'' = Some (VInt new)"
    and neq: "new \<noteq> pk"
  shows "\<not> int64 new \<Longrightarrow> update_route Section db pk body = (Inl OverflowError, db)"
    and "int64 new \<Longrightarrow> new \<in> row_id ` set (rows Section db) \<Longrightarrow>
           update_route Section db pk body = (Inl IntegrityError, db)"
proof -
  let ?data = "model_dump_exclude_unset SectionUpdate m"
  let ?obj = "fold (\<lambda>(key, value) obj. setattr obj key value) ?data loaded"
  let ?changed = "dirty Section loaded ?obj"
  let ?params =
    "map (\<lambda>c. (cname c, bind_processor (sa_typ c) (getattr ?obj (cname c)))) ?changed"
  have v': "validate_body (update_schema Section) body = Inr m" using v by simp
  have dist: "distinct (map fst ?data)" using distinct_dump [of Section m] by simp
  have obj_id: "getattr ?obj ''id'' = VInt new"
    using getattr_fold_setattr [OF dist, of loaded "''id''"] idv by simp
  have rid: "row_id loaded = pk" using got by (rule session_get_row_id)
  have "getattr loaded ''id'' \<noteq> VInt new"
  proof
    assume "getattr loaded ''id'' = VInt new"
    then have "row_id loaded = new" by (simp add: row_id_def)
    then show False using rid neq by simp
  qed
  then have differs: "getattr ?obj ''id'' \<noteq> getattr loaded ''id''"
    using obj_id by simp
  obtain idc where idc: "idc \<in> set (columns Section)" "cname idc = ''id''" "sa_typ idc = Integer"
    using id_column [of Section] by blast
  have "map_of ?params (cname idc) =
      (if getattr ?obj (cname idc) \<noteq> getattr loaded (cname idc)
       then Some (bind_processor (sa_typ idc) (getattr ?obj (cname idc))) else None)"
    unfolding dirty_def by (rule map_of_filtered_columns [OF distinct_cnames idc(1)])
  then have at: "map_of ?params ''id'' = Some (VInt new)"
    using idc differs obj_id by (simp add: bind_processor_def)
  then have mem: "(''id'', VInt new) \<in> set ?params" by (rule map_of_SomeD)
  then have key: "''id'' \<in> set (map fst ?params)" by force
  have pid: "getattr ?params ''id'' = VInt new" using at by (simp add: getattr_def)
  have route: "update_route Section db pk body = (Inl e, db)"
    if "flush_update db Section pk loaded ?obj = Inl e" for e
    using that got v' unfolding update_route_unfold update_op_unfold
    by (simp add: Let_def respond_error)
  show "update_route Section db pk body = (Inl OverflowError, db)" if big: "\<not> int64 new"
  proof -
    have "overflows ?params" using mem big by (rule overflowsI)
    then have "flush_update db Section pk loaded ?obj = Inl OverflowError"
      by (simp add: flush_update_def Let_def)
    then show ?thesis by (rule route)
  qed
  show "update_route Section db pk body = (Inl IntegrityError, db)"
    if ok: "int64 new" and used: "new \<in> row_id ` set (rows Section db)"
  proof -
    have "int64 i" if "map_of (model_dump_exclude_unset (update_schema Section) m) ''id'' =
        Some (VInt i)" for i
      using that idv ok by simp
    with v' have "\<not> overflows (model_dump_exclude_unset (update_schema Section) m)"
      by (rule update_data_in_range)
    then have "\<not> overflows ?data" by simp
    with dist have "\<not> overflows ?params" by (rule dirty_params_in_range) simp
    moreover have "new \<in> set (map row_id (rows Section db))" using used by simp
    ultimately have "flush_update db Section pk loaded ?obj = Inl IntegrityError"
      using key pid by (simp add: flush_update_def Let_def)
    then show ?thesis by (rule route)
  qed
qed

text \<open>
  The claim C10 as it stands fails where the \<open>id\<close> a client sends for a Section is the
  key of another Section: the database refuses the \<open>UPDATE\<close>, and the key is not
  overwritten.
\<close>

theorem used_identifier_is_not_overwritten:
  "map row_id (section_rows after_two_mornings) = [1, 2] \<and>
   validate_body SectionUpdate [(''id'', VInt 2)] =
     Inr \<lparr>attrs = [(''id'', VInt 2), (''title'', VNone), (''sequence'', VNone), (''status'', VNone)],
          fields_set = [''id'']\<rparr> \<and>
   PATCH_section after_two_mornings 1 [(''id'', VInt 2)] =
     (Inl IntegrityError, after_two_mornings)"
  by code_simp

text \<open>
  C10, amended.  For Venue, Schedule and Event the update payload has no \<open>id\<close> field
  and an update, whatever it is given and however it ends, leaves the identifiers of
  the table as they are: so the handler, so the request.  For Section the payload has
  one.  When the validated payload of an update of a Section that the session can load
  gives an \<open>id\<close> other than the one the record has, then: an integer outside the
  signed 64-bit range ends the request in \<open>OverflowError\<close> and the key of another
  Section ends it in \<open>IntegrityError\<close>, the database as it was in both cases; and an
  integer of that range that no Section has replaces the primary key of the record,
  provided the payload gives no \<open>None\<close> to \<open>title\<close> or \<open>sequence\<close> and the record
  is presentable: the response carries the record with the new key, the record is
  found under the new key, and the old key is gone.
\<close>

theorem identifier_protection_by_entity:
  "(T \<noteq> Section \<longrightarrow>
      map row_id (rows T (snd (update_op T db pk m))) = map row_id (rows T db) \<and>
      map row_id (rows T (snd (update_route T db pk body))) = map row_id (rows T db)) \<and>
   (session_get db Section pk = Inr (Some loaded) \<and>
    validate_body SectionUpdate body' = Inr m' \<and>
    model_dump_exclude_unset SectionUpdate m' = data \<and>
    map_of data ''id'' = Some (VInt new) \<and>
    new \<noteq> pk \<longrightarrow>
      (\<not> int64 new \<longrightarrow> update_route Section db pk body' = (Inl OverflowError, db)) \<and>
      (int64 new \<and> new \<in> row_id ` set (rows Section db) \<longrightarrow>
         update_route Section db pk body' = (Inl IntegrityError, db)) \<and>
      (int64 new \<and> new \<notin> row_id ` set (rows Section db) \<and>
       no_null Section data \<and> presentable Section loaded \<longrightarrow>
         (\<exists>obj db'. update_section db pk m' = (Inr obj, db') \<and>
            update_route Section db pk body' = (Inr (VDict (public_view Section obj)), db') \<and>
            row_id obj = new \<and>
            read_section db' new = (Inr obj, db') \<and>
            row_id ` set (rows Section db') =
              insert new (row_id ` set (rows Section db) - {pk}))))"
proof -
  have other: "map row_id (rows T (snd (update_op T db pk m))) = map row_id (rows T db) \<and>
      map row_id (rows T (snd (update_route T db pk body))) = map row_id (rows T db)"
    if "T \<noteq> Section"
    using update_keeps_ids [OF id_not_updatable [OF that]]
      update_route_keeps_ids [OF id_not_updatable [OF that]]
    by simp
  have sect: "(\<not> int64 new \<longrightarrow> update_route Section db pk body' = (Inl OverflowError, db)) \<and>
      (int64 new \<and> new \<in> row_id ` set (rows Section db) \<longrightarrow>
         update_route Section db pk body' = (Inl IntegrityError, db)) \<and>
      (int64 new \<and> new \<notin> row_id ` set (rows Section db) \<and>
       no_null Section data \<and> presentable Section loaded \<longrightarrow>
         (\<exists>obj db'. update_section db pk m' = (Inr obj, db') \<and>
            update_route Section db pk body' = (Inr (VDict (public_view Section obj)), db') \<and>
            row_id obj = new \<and>
            read_section db' new = (Inr obj, db') \<and>
            row_id ` set (rows Section db') =
              insert new (row_id ` set (rows Section db) - {pk})))"
    if got: "session_get db Section pk = Inr (Some loaded)"
      and valid: "validate_body SectionUpdate body' = Inr m'"
      and dump: "model_dump_exclude_unset SectionUpdate m' = data"
      and idv: "map_of data ''id'' = Some (VInt new)"
      and neq: "new \<noteq> pk"
  proof (intro conjI impI)
    have idv': "map_of (model_dump_exclude_unset SectionUpdate m') ''id'' = Some (VInt new)"
      using idv dump by simp
    note refused = section_id_refused [OF got valid idv' neq]
    show "update_route Section db pk body' = (Inl OverflowError, db)" if "\<not> int64 new"
      using that by (rule refused(1))
    show "update_route Section db pk body' = (Inl IntegrityError, db)"
      if "int64 new \<and> new \<in> row_id ` set (rows Section db)"
      using that refused(2) by blast
    show "\<exists>obj db'. update_section db pk m' = (Inr obj, db') \<and>
            update_route Section db pk body' = (Inr (VDict (public_view Section obj)), db') \<and>
            row_id obj = new \<and>
            read_section db' new = (Inr obj, db') \<and>
            row_id ` set (rows Section db') =
              insert new (row_id ` set (rows Section db) - {pk})"
      if a: "int64 new \<and> new \<notin> row_id ` set (rows Section db) \<and>
       no_null Section data \<and> presentable Section loaded"
    proof -
      from a have new64: "int64 new" and fresh: "new \<notin> row_id ` set (rows Section db)"
        and nn: "no_null Section data" and pres: "presentable Section loaded"
        by blast+
      have valid': "validate_body (update_schema Section) body' = Inr m'" using valid by simp
      have dump': "model_dump_exclude_unset (update_schema Section) m' = data" using dump by simp
      have kf: "key_free Section db loaded data"
        using idv fresh new64 by (simp add: key_free_def)
      from update_request_succeeds [OF got pres valid' dump' nn kf]
      obtain obj db' where out: "update_op Section db pk m' = (Inr obj, db')"
        and attr: "\<And>k. getattr obj k =
                     (case map_of data k of Some v \<Rightarrow> v | None \<Rightarrow> getattr loaded k)"
        and get: "session_get db' Section (row_id obj) = Inr (Some obj)"
        and ids: "row_id ` set (rows Section db') =
                    insert (row_id obj) (row_id ` set (rows Section db) - {pk})"
        and rt: "update_route Section db pk body' = (Inr (VDict (public_view Section obj)), db')"
        by blast
      have rid: "row_id obj = new" using attr [of "''id''"] idv by (simp add: row_id_def)
      have upd: "update_section db pk m' = (Inr obj, db')" using out by simp
      have rd: "read_section db' new = (Inr obj, db')"
        using get rid read_op_unfold [of Section db' new] by simp
      have ids': "row_id ` set (rows Section db') =
                    insert new (row_id ` set (rows Section db) - {pk})"
        using ids rid by simp
      show ?thesis using upd rt rid rd ids' by blast
    qed
  qed
  show ?thesis using other sect by blast
qed

theorem identifier_protection_by_entity_witness:
  "Event \<noteq> Section \<and>
   map row_id (rows Event (snd (PATCH_event after_two_mornings 1 [(''location'', VStr ''Room B'')]))) =
     map row_id (rows Event after_two_mornings) \<and>
   session_get after_two_mornings Section 1 =
     Inr (Some [(''title'', VStr ''Morning''), (''sequence'', VStr ''1''), (''status'', VNone),
                (''id'', VInt 1), (''schedule_id'', VNone)]) \<and>
   presentable Section
     [(''title'', VStr ''Morning''), (''sequence'', VStr ''1''), (''status'', VNone),
      (''id'', VInt 1), (''schedule_id'', VNone)] \<and>
   validate_body SectionUpdate [(''id'', VInt 5)] = Inr renumber \<and>
   model_dump_exclude_unset SectionUpdate renumber = [(''id'', VInt 5)] \<and>
   no_null Section [(''id'', VInt 5)] \<and>
   int64 5 \<and> (5::int) \<notin> row_id ` set (rows Section after_two_mornings) \<and>
   (\<exists>obj db'. PATCH_section after_two_mornings 1 [(''id'', VInt 5)] =
        (Inr (VDict (public_view Section obj)), db') \<and>
      row_id obj = 5 \<and>
      read_section db' 5 = (Inr obj, db') \<and>
      row_id ` set (rows Section db') =
        insert 5 (row_id ` set (rows Section after_two_mornings) - {1})) \<and>
   \<not> int64 (2 ^ 63) \<and>
   PATCH_section after_two_mornings 1 [(''id'', VInt (2 ^ 63))] =
     (Inl OverflowError, after_two_mornings) \<and>
   (2::int) \<in> row_id ` set (rows Section after_two_mornings) \<and>
   PATCH_section after_two_mornings 1 [(''id'', VInt 2)] =
     (Inl IntegrityError, after_two_mornings)"
proof -
  let ?loaded = "[(''title'', VStr ''Morning''), (''sequence'', VStr ''1''), (''status'', VNone),
                (''id'', VInt 1), (''schedule_id'', VNone)]"
  let ?P = "\<lambda>i. \<lparr>attrs = [(''id'', VInt i), (''title'', VNone), (''sequence'', VNone),
                          (''status'', VNone)],
                fields_set = [''id'']\<rparr>"
  have h0: "Event \<noteq> Section" by simp
  have h1: "session_get after_two_mornings Section 1 = Inr (Some ?loaded)" by code_simp
  have h2: "presentable Section ?loaded" by code_simp
  have v: "validate_body SectionUpdate [(''id'', VInt i)] = Inr (?P i)" for i
    by (simp add: validate_body_def schema_defs field_defs validate_field_def coerce_def)
  have d: "model_dump_exclude_unset SectionUpdate (?P i) = [(''id'', VInt i)]" for i
    by (simp add: model_dump_exclude_unset_def schema_defs field_defs getattr_def)
  have r: "renumber = ?P 5" by (simp add: renumber_def)
  have h3: "no_null Section [(''id'', VInt 5)]" by code_simp
  have h4: "int64 5" "\<not> int64 (2 ^ 63)" "int64 2" by code_simp+
  have h5: "(5::int) \<notin> row_id ` set (rows Section after_two_mornings)" by code_simp
  have h6: "(2::int) \<in> row_id ` set (rows Section after_two_mornings)" by code_simp
  note inst = identifier_protection_by_entity
    [where T = Event and db = after_two_mornings and pk = 1 and m = relocate
      and body = "[(''location'', VStr ''Room B'')]" and loaded = ?loaded]
  have fresh: "\<exists>obj db'. PATCH_section after_two_mornings 1 [(''id'', VInt 5)] =
        (Inr (VDict (public_view Section obj)), db') \<and>
      row_id obj = 5 \<and>
      read_section db' 5 = (Inr obj, db') \<and>
      row_id ` set (rows Section db') =
        insert 5 (row_id ` set (rows Section after_two_mornings) - {1})"
    using h1 h2 h3 h4 h5 v [of 5] d [of 5]
      inst [where body' = "[(''id'', VInt 5)]" and m' = "?P 5" and data = "[(''id'', VInt 5)]"
        and new = 5]
    by auto
  have big: "PATCH_section after_two_mornings 1 [(''id'', VInt (2 ^ 63))] =
     (Inl OverflowError, after_two_mornings)"
    using h1 h4 v [of "2 ^ 63"] d [of "2 ^ 63"]
      inst [where body' = "[(''id'', VInt (2 ^ 63))]" and m' = "?P (2 ^ 63)"
        and data = "[(''id'', VInt (2 ^ 63))]" and new = "2 ^ 63"]
    by auto
  have used: "PATCH_section after_two_mornings 1 [(''id'', VInt 2)] =
     (Inl IntegrityError, after_two_mornings)"
    using h1 h4 h6 v [of 2] d [of 2]
      inst [where body' = "[(''id'', VInt 2)]" and m' = "?P 2" and data = "[(''id'', VInt 2)]"
        and new = 2]
    by auto
  have keep: "map row_id (rows Event (snd (PATCH_event after_two_mornings 1
        [(''location'', VStr ''Room B'')]))) = map row_id (rows Event after_two_mornings)"
    using h0 inst [where body' = "[]" and m' = "?P 0" and data = "[]" and new = 0] by simp
  show ?thesis
    using h0 keep h1 h2 v [of 5] d [of 5] r h3 h4 h5 fresh big h6 used by simp
qed

section \<open>Creating, then fetching\<close>

text \<open>
  What C6 says of a create does hold when the payload gives a URL to every column of
  type \<open>HttpUrlType\<close> and no integer outside the signed 64-bit range, in a table whose
  identifiers have not reached the largest integer of that range, for every entity:
  the handler returns the record with the next identifier of the table and the
  validated payload's value in every field, the response is the public view of that
  record, and a fetch of that identifier returns the same record.
\<close>

lemma create_op_unfold:
  "create_op T db m =
     (case flush_insert db T (model_validate T m) of
        Inl e \<Rightarrow> (Inl e, db)
      | Inr (db', obj') \<Rightarrow>
          (case session_refresh db' T obj' of
             Inl e \<Rightarrow> (Inl e, db')
           | Inr obj'' \<Rightarrow> (Inr obj'', db')))"
  by (cases T; hypsubst;
      simp add: create_event_def create_section_def create_schedule_def create_venue_def
        split: sum.split prod.split)

lemma fold_max_ge: "\<forall>x \<in> set (i # ids). x \<le> fold max ids (i::int)"
proof (induction ids arbitrary: i)
  case Nil
  then show ?case by simp
next
  case (Cons j ids)
  have ih: "\<forall>x \<in> set (max j i # ids). x \<le> fold max ids (max j i)" by (rule Cons.IH)
  then have "max j i \<le> fold max ids (max j i)" by simp
  then have "i \<le> fold max ids (max j i)" and "j \<le> fold max ids (max j i)" by linarith+
  then show ?case using ih by simp
qed

lemma fold_max_mem: "fold max ids (i::int) \<in> set (i # ids)"
proof (induction ids arbitrary: i)
  case Nil
  then show ?case by simp
next
  case (Cons j ids)
  have "fold max ids (max j i) \<in> set (max j i # ids)" by (rule Cons.IH)
  then have "fold max ids (max j i) = max j i \<or> fold max ids (max j i) \<in> set ids" by simp
  moreover have "max j i = j \<or> max j i = i" by (simp add: max_def)
  ultimately show ?case by auto
qed

lemma unused_rowid_fresh: "unused_rowid ids \<notin> set ids"
proof -
  define cand where "cand = map int [1 ..< length ids + 2]"
  have "length cand = length ids + 2 - 1" by (simp only: cand_def length_map length_upt)
  then have len: "length cand = length ids + 1" by simp
  have "distinct [1 ..< length ids + 2]" by (rule distinct_upt)
  moreover have "inj_on int (set [1 ..< length ids + 2])" by (rule inj_onI) simp
  ultimately have "distinct cand" by (simp only: cand_def distinct_map simp_thms)
  then have card: "card (set cand) = length cand" by (rule distinct_card)
  have "\<exists>i \<in> set cand. i \<notin> set ids"
  proof (rule ccontr)
    assume "\<not> (\<exists>i \<in> set cand. i \<notin> set ids)"
    then have "set cand \<subseteq> set ids" by blast
    then have "card (set cand) \<le> card (set ids)" by (simp add: card_mono)
    moreover have "card (set ids) \<le> length ids" by (rule card_length)
    ultimately show False using card len by linarith
  qed
  then obtain i where i: "find (\<lambda>i. i \<notin> set ids) cand = Some i"
    by (cases "find (\<lambda>i. i \<notin> set ids) cand") (auto simp: find_None_iff)
  then have "i \<notin> set ids" by (auto simp: find_Some_iff)
  then show ?thesis using i by (simp add: unused_rowid_def cand_def)
qed

lemma next_rowid_fresh: "next_rowid rs \<notin> row_id ` set rs"
proof (cases "map row_id rs")
  case Nil
  then show ?thesis by simp
next
  case (Cons i ids)
  show ?thesis
  proof (cases "fold max ids i = 2 ^ 63 - 1")
    case True
    then have "next_rowid rs = unused_rowid (map row_id rs)"
      using Cons by (simp add: next_rowid_def)
    then show ?thesis using unused_rowid_fresh [of "map row_id rs"] by simp
  next
    case False
    then have n: "next_rowid rs = fold max ids i + 1" using Cons by (simp add: next_rowid_def)
    show ?thesis
    proof
      assume "next_rowid rs \<in> row_id ` set rs"
      then have "next_rowid rs \<in> set (i # ids)" using Cons by (metis set_map)
      then have "next_rowid rs \<le> fold max ids i" using fold_max_ge [of i ids] by blast
      then show False using n by simp
    qed
  qed
qed

lemma next_rowid_in_range:
  assumes "list_all (\<lambda>r. int64 (row_id r) \<and> int64 (row_id r + 1)) rs"
  shows "int64 (next_rowid rs)"
proof (cases "map row_id rs")
  case Nil
  then show ?thesis by (simp add: next_rowid_def int64_def)
next
  case (Cons i ids)
  have "fold max ids i \<in> set (map row_id rs)" using fold_max_mem [of ids i] Cons by simp
  then obtain r where "r \<in> set rs" "row_id r = fold max ids i" by auto
  then have "int64 (fold max ids i + 1)" using assms by (auto simp: list_all_iff)
  moreover from this have "fold max ids i \<noteq> 2 ^ 63 - 1" by (auto simp: int64_def)
  ultimately show ?thesis using Cons by (simp add: next_rowid_def)
qed

lemma coerce_not_None: "coerce t w = Some v \<Longrightarrow> v \<noteq> VNone"
  by (cases t; cases w) (auto simp: coerce_def split: if_splits sum.splits)

lemma validated_not_None:
  assumes "validate_field f given = Some v" and "\<not> noneable f" and "fdefault f \<noteq> Some VNone"
  shows "v \<noteq> VNone"
  using assms
  by (cases given) (auto simp: validate_field_def dest: coerce_not_None split: if_splits)

lemma distinct_create_fields: "distinct (map fname (model_fields (create_schema T)))"
  by (cases T) (simp_all add: schema_defs field_defs)

lemma create_fields_are_columns:
  "set (map fname (model_fields (create_schema T))) \<subseteq> cname ` set (columns T)"
  by (cases T) (simp_all add: schema_defs field_defs col_def)

lemma id_not_creatable: "''id'' \<notin> set (map fname (model_fields (create_schema T)))"
  by (cases T) (simp_all add: schema_defs field_defs)

lemma required_column_has_required_field:
  assumes "c \<in> set (columns T)" and "\<not> nullable c" and "cname c \<noteq> ''id''"
  shows "\<exists>f \<in> set (model_fields (create_schema T)).
           fname f = cname c \<and> \<not> noneable f \<and> fdefault f \<noteq> Some VNone"
  using assms by (cases T) (auto simp: schema_defs field_defs col_def)

lemma url_column_has_url_create_field:
  assumes "c \<in> set (columns T)" and "sa_typ c = HttpUrlType"
  shows "\<exists>f \<in> set (model_fields (create_schema T)).
           fname f = cname c \<and> ftyp f = T_HttpUrl \<and>
           (fdefault f = None \<or> fdefault f = Some VNone)"
  using assms by (cases T) (auto simp: schema_defs field_defs col_def)

lemma url_column_not_id:
  assumes "c \<in> set (columns T)" and "sa_typ c = HttpUrlType"
  shows "cname c \<noteq> ''id''"
  using assms by (cases T) (auto simp: col_def)

lemma getattr_column_map:
  assumes "distinct (map cname cs)" and "c \<in> set cs"
  shows "getattr (map (\<lambda>c. (cname c, h c)) cs) (cname c) = h c"
  using map_of_filtered_columns [OF assms, of h "\<lambda>c. True"] by (simp add: getattr_def)

lemma public_field_cases:
  assumes "f \<in> set (model_fields (public_schema T))"
  shows "f \<in> set (model_fields (create_schema T)) \<or> f = required ''id'' T_int"
  using assms by (cases T) (auto simp: schema_defs)

lemma default_is_valid:
  assumes "f \<in> set (model_fields (create_schema T))" and "fdefault f = Some d"
  shows "validate_field f (Some d) = Some d"
  using assms by (cases T) (auto simp: schema_defs field_defs validate_field_def coerce_def)

lemma validated_is_valid:
  assumes "validate_field f given = Some v"
    and "\<And>d. fdefault f = Some d \<Longrightarrow> validate_field f (Some d) = Some d"
  shows "validate_field f (Some v) = Some v"
proof (cases given)
  case None
  then show ?thesis using assms by (simp add: validate_field_def)
next
  case (Some w)
  show ?thesis
  proof (cases "w = VNone")
    case True
    then show ?thesis using assms(1) Some by (auto simp: validate_field_def split: if_splits)
  next
    case False
    then have co: "coerce (ftyp f) w = Some v" using assms(1) Some by (simp add: validate_field_def)
    then have "v \<noteq> VNone" by (rule coerce_not_None)
    moreover have "coerce (ftyp f) v = Some v" using co by (rule coerce_idem)
    ultimately show ?thesis by (simp add: validate_field_def)
  qed
qed

lemma create_then_read:
  assumes v: "validate_body (create_schema T) body = Inr m"
    and urls: "urls_given T (attrs m)"
    and rng: "\<not> overflows (attrs m)"
    and room: "list_all (\<lambda>r. int64 (row_id r) \<and> int64 (row_id r + 1)) (rows T db)"
  shows "\<exists>obj db'. create_op T db m = (Inr obj, db') \<and>
           row_id obj = next_rowid (rows T db) \<and>
           (\<forall>f \<in> set (model_fields (create_schema T)).
              getattr obj (fname f) = getattr (attrs m) (fname f)) \<and>
           create_route T db body = (Inr (VDict (public_view T obj)), db') \<and>
           read_op T db' (row_id obj) = (Inr obj, db')"
proof -
  let ?C = "create_schema T"
  let ?n = "next_rowid (rows T db)"
  from v obtain a where a: "validate_fields (model_fields ?C) (map_of body) = Some a"
    and m: "attrs m = a"
    by (auto simp: validate_body_def split: if_splits option.splits)
  have field_val: "validate_field f (map_of body (fname f)) = Some (getattr a (fname f))"
    if "f \<in> set (model_fields ?C)" for f
    using a distinct_create_fields that by (rule validate_fields_attr)
  have "map fst a = map fname (model_fields ?C)" using a by (rule validate_fields_keys)
  then have "''id'' \<notin> set (map fst a)" using id_not_creatable [of T] by simp
  then have "''id'' \<notin> fst ` set a" by simp
  then have a_id: "getattr a ''id'' = VNone" by (rule getattr_outside)
  let ?obj0 = "model_validate T m"
  have obj0: "getattr ?obj0 (cname c) = getattr a (cname c)" if "c \<in> set (columns T)" for c
    unfolding model_validate_def m by (rule getattr_column_map [OF distinct_cnames that])
  obtain idc where idc: "idc \<in> set (columns T)" "cname idc = ''id''" "sa_typ idc = Integer"
    using id_column [of T] by blast
  have obj0_id: "getattr ?obj0 ''id'' = VNone" using obj0 [OF idc(1)] idc(2) a_id by simp
  let ?obj1 = "setattr ?obj0 ''id'' (VInt ?n)"
  have obj1: "getattr ?obj1 (cname c) = (if cname c = ''id'' then VInt ?n else getattr a (cname c))"
    if "c \<in> set (columns T)" for c
    using obj0 [OF that] by (simp add: getattr_setattr)
  let ?params = "bind_params T ?obj1"
  have params: "getattr ?params (cname c) = bind_processor (sa_typ c) (getattr ?obj1 (cname c))"
    if "c \<in> set (columns T)" for c
    unfolding bind_params_def by (rule getattr_column_map [OF distinct_cnames that])
  have params_id: "getattr ?params ''id'' = VInt ?n"
    using params [OF idc(1)] obj1 [OF idc(1)] idc by (simp add: bind_processor_def)
  then have rid_params: "row_id ?params = ?n" by (simp add: row_id_def)
  have url_ok: "HttpUrl (getattr a (cname c)) = Inr (getattr a (cname c))"
    if c: "c \<in> set (columns T)" and url: "sa_typ c = HttpUrlType" for c
  proof -
    from url_column_has_url_create_field [OF c url]
    obtain f where f: "f \<in> set (model_fields ?C)" "fname f = cname c" "ftyp f = T_HttpUrl"
      "fdefault f = None \<or> fdefault f = Some VNone" by blast
    have nn: "getattr a (cname c) \<noteq> VNone"
      using urls c url m by (auto simp: urls_given_def list_all_iff)
    have val: "validate_field f (map_of body (cname c)) = Some (getattr a (cname c))"
      using field_val [OF f(1)] f(2) by simp
    then obtain w where w: "map_of body (cname c) = Some w"
      using f(4) nn by (cases "map_of body (cname c)") (auto simp: validate_field_def)
    show ?thesis using val w f(3) nn by (simp add: validated_url_value)
  qed
  have nonnull: "\<not> not_null_violation T ?params"
  proof -
    have "nullable c \<or> getattr ?params (cname c) \<noteq> VNone" if c: "c \<in> set (columns T)" for c
    proof (cases "nullable c \<or> cname c = ''id'' \<or> sa_typ c = HttpUrlType")
      case True
      then show ?thesis
        using params [OF c] obj1 [OF c]
        by (auto simp: bind_processor_def process_bind_param_def)
    next
      case False
      then obtain f where f: "f \<in> set (model_fields ?C)" "fname f = cname c"
        "\<not> noneable f" "fdefault f \<noteq> Some VNone"
        using required_column_has_required_field [OF c] by blast
      have "getattr a (cname c) \<noteq> VNone"
        using validated_not_None [OF field_val [OF f(1)] f(3) f(4)] f(2) by simp
      then show ?thesis
        using params [OF c] obj1 [OF c] False by (simp add: bind_processor_def)
    qed
    then show ?thesis by (auto simp: not_null_violation_def list_ex_iff)
  qed
  have fresh: "?n \<notin> row_id ` set (rows T db)" by (rule next_rowid_fresh)
  have n64: "int64 ?n" using room by (rule next_rowid_in_range)
  have range: "\<not> overflows ?params"
    unfolding bind_params_def
  proof (rule bound_in_range)
    fix c i
    assume c: "c \<in> set (columns T)" and i: "getattr ?obj1 (cname c) = VInt i"
    show "int64 i"
    proof (cases "cname c = ''id''")
      case True
      then show ?thesis using obj1 [OF c] i n64 by simp
    next
      case False
      then have "getattr a (cname c) = VInt i" using obj1 [OF c] i by simp
      then have "map_of a (cname c) = Some (VInt i)"
        by (cases "map_of a (cname c)") (simp_all add: getattr_def)
      then show ?thesis using rng m by (simp add: in_range_data)
    qed
  qed
  let ?rows' = "insort_key row_id ?params (rows T db)"
  let ?db' = "put_rows T ?rows' db"
  have fl: "flush_insert db T ?obj0 = Inr (?db', ?obj1)"
    using obj0_id nonnull fresh rid_params range by (simp add: flush_insert_def Let_def)
  have rid_obj1: "row_id ?obj1 = ?n" by (simp add: row_id_def getattr_setattr)
  have found: "find (\<lambda>r. row_id r = ?n) ?rows' = Some ?params"
  proof (rule find_insort_key)
    show "row_id ?params = ?n" by (rule rid_params)
    show "\<not> row_id y = ?n" if "y \<in> set (rows T db)" for y
      using that fresh by (metis imageI)
  qed
  let ?obj2 = "map (\<lambda>c. (cname c, getattr ?obj1 (cname c))) (columns T)"
  have fetched: "fetch T ?params = Inr ?obj2"
    unfolding fetch_def
  proof (rule fetch_columns_intro)
    fix c assume c: "c \<in> set (columns T)"
    have "result_processor (sa_typ c) (bind_processor (sa_typ c) (getattr ?obj1 (cname c))) =
            Inr (getattr ?obj1 (cname c))"
    proof (rule result_bind)
      assume url: "sa_typ c = HttpUrlType"
      then have "cname c \<noteq> ''id''" using c by (rule url_column_not_id [rotated])
      then show "HttpUrl (getattr ?obj1 (cname c)) = Inr (getattr ?obj1 (cname c))"
        using obj1 [OF c] url_ok [OF c url] by simp
    qed
    then show "result_processor (sa_typ c) (getattr ?params (cname c)) =
            Inr (getattr ?obj1 (cname c))"
      using params [OF c] by simp
  qed
  have get: "session_get ?db' T ?n = Inr (Some ?obj2)"
    using found fetched n64 by (simp add: session_get_def rows_put_rows)
  have obj2: "getattr ?obj2 (cname c) = getattr ?obj1 (cname c)" if "c \<in> set (columns T)" for c
    by (rule getattr_column_map [OF distinct_cnames that])
  have rid_obj2: "row_id ?obj2 = ?n"
    using obj2 [OF idc(1)] idc(2) by (simp add: row_id_def getattr_setattr)
  have out: "create_op T db m = (Inr ?obj2, ?db')"
    using fl get rid_obj1 by (simp add: create_op_unfold session_refresh_def)
  have same: "getattr ?obj2 (fname f) = getattr (attrs m) (fname f)"
    if f: "f \<in> set (model_fields ?C)" for f
  proof -
    from f create_fields_are_columns [of T] obtain c where
      c: "c \<in> set (columns T)" "fname f = cname c" by auto
    have "fname f \<in> set (map fname (model_fields ?C))" using f by simp
    then have "fname f \<noteq> ''id''" using id_not_creatable [of T] by metis
    then show ?thesis using obj2 [OF c(1)] obj1 [OF c(1)] c(2) m by simp
  qed
  have valid: "validate_field f (Some (getattr ?obj2 (fname f))) = Some (getattr ?obj2 (fname f))"
    if f: "f \<in> set (model_fields (public_schema T))" for f
  proof (cases "f \<in> set (model_fields ?C)")
    case True
    have "validate_field f (Some (getattr a (fname f))) = Some (getattr a (fname f))"
      using field_val [OF True] default_is_valid [OF True] by (rule validated_is_valid)
    then show ?thesis using same [OF True] m by simp
  next
    case False
    then have "f = required ''id'' T_int" using public_field_cases [OF f] by simp
    then show ?thesis
      using obj2 [OF idc(1)] idc(2)
      by (simp add: field_defs validate_field_def coerce_def getattr_setattr)
  qed
  have "validate_fields (model_fields (public_schema T)) (map_of ?obj2) =
          Some (public_view T ?obj2)"
    using fetched valid by (rule response_of_fields)
  then have route: "create_route T db body = (Inr (VDict (public_view T ?obj2)), ?db')"
    using v out
    by (simp add: create_route_unfold respond_def serialize_response_def plain_def)
  have "read_op T ?db' (row_id ?obj2) = (Inr ?obj2, ?db')"
    using get rid_obj2 by (simp add: read_op_unfold)
  then show ?thesis using out rid_obj2 same route by blast
qed

text \<open>A Schedule created without \<open>venue_url\<close> meets the same end as the Venue of C6.\<close>

lemma schedule_without_venue_url_cannot_be_read:
  "POST_schedules create_db_and_tables
     [(''url'', VStr ''http://retreat.example/''), (''title'', VStr ''Retreat''),
      (''venue'', VStr ''Hall''), (''schedule_datetime'', VStr ''2024-05-01'')] =
     (Inl ValidationError,
      \<lparr>event_rows = [], section_rows = [],
       schedule_rows =
         [[(''url'', VStr ''http://retreat.example/''), (''title'', VStr ''Retreat''),
           (''venue'', VStr ''Hall''), (''venue_url'', VStr ''None''),
           (''schedule_datetime'', VStr ''2024-05-01''), (''locations'', VDict []),
           (''registration'', VDict []), (''description'', VNone), (''id'', VInt 1)]],
       venue_rows = []\<rparr>)"
  by code_simp

end
